theory Spec2Isabelle
  imports Main "HOL-Library.Char_ord" "HOL-Library.List_Lexorder" "HOL-Library.Sublist"
begin

section \<open>Data model (types.ts)\<close>

text \<open>
  Strings are lists of characters; every string operation the program uses (prefix test,
  slicing, splitting, substring search, concatenation, code-unit comparison) works unit by
  unit, so the size of the alphabet plays no role.  An optional field \<open>f?: T\<close> is a
  field of type \<open>T option\<close>, with \<open>None\<close> for \<open>undefined\<close>.
\<close>

record ExcludeEntry =
  repository :: string
  reason :: "string option"

record RequiresEntry =
  "check" :: string
  reason :: "string option"

text \<open>
  \<open>reference_example\<close> is not declared by the interface in types.ts, but
  \<open>generateMarkdownReport\<close> reads it from the check object, so the record carries it.
\<close>

record FileCheck =
  name :: string
  "file" :: string
  pattern :: string
  description :: "string option"
  enabled :: "bool option"
  exclude :: "ExcludeEntry list option"
  "requires" :: "RequiresEntry list option"
  reference_example :: "string option"

record StaticRepositories =
  static_enabled :: bool
  static_list :: "string list"

record DynamicRepositories =
  dynamic_enabled :: bool
  dynamic_source :: string
  dynamic_organization :: string
  dynamic_topic :: string

record Config =
  repositories :: "StaticRepositories option"
  dynamicRepositories :: "DynamicRepositories option"
  checks :: "FileCheck list"

record CheckResult =
  repository :: string
  "check" :: FileCheck
  filePath :: string
  passed :: bool
  error :: "string option"
  "requires" :: "RequiresEntry list option"

section \<open>Report model (index.ts)\<close>

text \<open>
  The status of a failure: one of the three emoji of \<open>getFailureStatus\<close> (shrug, cross
  mark, magnifying glass) and a message.
\<close>

datatype status_emoji = Shrug | CrossMark | MagnifyingGlass

record FailureStatus =
  emoji :: status_emoji
  message :: string

record ProcessedFailure =
  failure :: CheckResult
  repo :: string
  status :: FailureStatus
  failedRequires :: "RequiresEntry list"

text \<open>
  A JavaScript \<open>Map\<close> keeps its keys in insertion order: an association list with
  distinct keys.
\<close>

type_synonym ('k, 'v) Map = "('k \<times> 'v) list"

record GroupedResults =
  failedCount :: nat
  passedCount :: nat
  byCheck :: "(string, (string, ProcessedFailure list) Map) Map"

text \<open>
  The markdown report is the list of its lines (the program joins them with a newline).
  Each constructor stands for one line template of \<open>generateMarkdownReport\<close> and carries
  the values the template interpolates: for a table row the repository, the file path,
  the status, the failed prerequisites and the reference example.
\<close>

datatype md_line =
    Title
  | Blank
  | Generated string
  | AllChecksPassed
  | SummaryHeading
  | FailedChecksCount nat
  | PassedChecksCount nat
  | FailedChecksHeading
  | CheckHeading string
  | TableHeader
  | TableRule
  | TableRow string string FailureStatus "RequiresEntry list" "string option"

section \<open>The platform: exceptions, the network, regular expressions, files\<close>

text \<open>
  A thrown JavaScript value is either an \<open>Error\<close> object with its \<open>name\<close> and
  \<open>message\<close>, or any other value, kept as its string rendering.
\<close>

datatype thrown = ErrorObject string string | OtherValue string

definition new_Error :: "string \<Rightarrow> thrown" where
  "new_Error msg = ErrorObject ''Error'' msg"

text \<open>\<open>String(e)\<close>, as a template literal \<open>${e}\<close> renders it (Error.prototype.toString).\<close>

fun String_of :: "thrown \<Rightarrow> string" where
  "String_of (ErrorObject n msg) =
     (if n = [] then msg else if msg = [] then n else n @ '': '' @ msg)"
| "String_of (OtherValue s) = s"

text \<open>\<open>error instanceof Error ? error.message : String(error)\<close>\<close>

fun message_of :: "thrown \<Rightarrow> string" where
  "message_of (ErrorObject n msg) = msg"
| "message_of (OtherValue s) = s"

record GitHubRepository =
  full_name :: string
  topics :: "string list"

record GitHubSearchResponse =
  items :: "GitHubRepository list"
  total_count :: nat

text \<open>
  What the program reads of a \<open>fetch\<close> response: \<open>ok\<close>, the status code (already
  in decimal) and status text, and what \<open>text()\<close> and \<open>json()\<close> resolve to or reject with.
\<close>

record Response =
  ok :: bool
  status_code :: string
  statusText :: string
  "text" :: "thrown + string"
  json :: "thrown + GitHubSearchResponse"

text \<open>
  The platform is a parameter of the model.  \<open>fetch\<close> receives the URLs requested so
  far as well as the URL requested, so that any network, also one that answers the same
  URL differently over time, is an instance.  \<open>RegExp\<close> is \<open>new RegExp(pattern)\<close>: it
  throws on a malformed pattern and otherwise yields the predicate \<open>regex.test\<close> (a
  regular expression without the global flag keeps no state between tests).
  \<open>readConfig\<close> is \<open>JSON.parse(await readFile(path, 'utf-8')) as Config\<close>,
  \<open>writeFile\<close> returns what writing the report throws, if anything, and \<open>now\<close> is
  \<open>new Date().toISOString()\<close>.
\<close>

record platform =
  fetch :: "string list \<Rightarrow> string \<Rightarrow> thrown + Response"
  RegExp :: "string \<Rightarrow> thrown + (string \<Rightarrow> bool)"
  readConfig :: "string \<Rightarrow> thrown + Config"
  writeFile :: "string \<Rightarrow> md_line list \<Rightarrow> thrown option"
  now :: string

section \<open>String helpers\<close>

text \<open>\<open>s.split(sep)\<close> for a one-character separator: never the empty array.\<close>

fun js_split :: "char \<Rightarrow> string \<Rightarrow> string list" where
  "js_split sep [] = [[]]"
| "js_split sep (c # cs) =
     (if c = sep then [] # js_split sep cs
      else (case js_split sep cs of
              [] \<Rightarrow> [[c]]
            | p # ps \<Rightarrow> (c # p) # ps))"

text \<open>\<open>s.startsWith(t)\<close> and \<open>s.includes(t)\<close>.\<close>

fun startsWith :: "string \<Rightarrow> string \<Rightarrow> bool" where
  "startsWith s [] = True"
| "startsWith [] (t # ts) = False"
| "startsWith (c # cs) (t # ts) = (c = t \<and> startsWith cs ts)"

fun "includes" :: "string \<Rightarrow> string \<Rightarrow> bool" where
  "includes [] t = (t = [])"
| "includes (c # cs) t = (startsWith (c # cs) t \<or> includes cs t)"

text \<open>Truthiness of an optional string: \<open>undefined\<close> and the empty string are falsy.\<close>

fun truthy :: "string option \<Rightarrow> bool" where
  "truthy None = False"
| "truthy (Some s) = (s \<noteq> [])"

text \<open>
  \<open>[...new Set(xs)]\<close>: the distinct elements in the order of their first occurrence;
  \<open>seen\<close> holds the elements already in the set.
\<close>

fun Set_values :: "'a list \<Rightarrow> 'a list \<Rightarrow> 'a list" where
  "Set_values seen [] = []"
| "Set_values seen (x # xs) =
     (if x \<in> set seen then Set_values seen xs else x # Set_values (x # seen) xs)"

text \<open>
  \<open>Map.has\<close>, \<open>Map.get\<close>, \<open>Map.set\<close> and \<open>[...Map.keys()]\<close>.  Setting a key that is
  present keeps its place; a new key goes to the end.
\<close>

definition Map_has :: "('k, 'v) Map \<Rightarrow> 'k \<Rightarrow> bool" where
  "Map_has m k = (map_of m k \<noteq> None)"

definition Map_get :: "('k, 'v) Map \<Rightarrow> 'k \<Rightarrow> 'v option" where
  "Map_get m k = map_of m k"

fun Map_set :: "('k, 'v) Map \<Rightarrow> 'k \<Rightarrow> 'v \<Rightarrow> ('k, 'v) Map" where
  "Map_set [] k v = [(k, v)]"
| "Map_set ((k', v') # m) k v =
     (if k' = k then (k, v) # m else (k', v') # Map_set m k v)"

definition Map_keys :: "('k, 'v) Map \<Rightarrow> 'k list" where
  "Map_keys m = map fst m"

text \<open>Array destructuring \<open>[a, b] = xs\<close>: a missing element is \<open>undefined\<close>.\<close>

fun element :: "'a list \<Rightarrow> nat \<Rightarrow> 'a option" where
  "element [] i = None"
| "element (x # xs) 0 = Some x"
| "element (x # xs) (Suc i) = element xs i"

section \<open>checker.ts\<close>

text \<open>
  Every function that may call \<open>fetch\<close> takes the list of URLs requested so far and
  returns it extended by the requests it made, in order.  A function that may throw
  returns \<open>Inl\<close> of the thrown value.  Console output is not modelled.
\<close>

definition raw_url :: "string \<Rightarrow> string \<Rightarrow> string \<Rightarrow> string \<Rightarrow> string" where
  "raw_url owner repoName branch path =
     ''https://raw.githubusercontent.com/'' @ owner @ ''/'' @ repoName @ ''/'' @ branch @ ''/''
       @ path"

text \<open>The \<open>catch\<close> clause of \<open>fetchFileContent\<close> (line 61).\<close>

definition failed_to_fetch :: "string \<Rightarrow> thrown \<Rightarrow> thrown" where
  "failed_to_fetch path e =
     new_Error (''Failed to fetch '' @ path @ '': '' @ String_of e)"

text \<open>The \<open>try\<close> block of \<open>fetchFileContent\<close> with its \<open>catch\<close> (lines 48-62).\<close>

definition fetch_main_then_master ::
  "platform \<Rightarrow> string list \<Rightarrow> string \<Rightarrow> string \<Rightarrow> string \<Rightarrow> (thrown + string) \<times> string list" where
  "fetch_main_then_master P log owner repoName path =
     (let url = raw_url owner repoName ''main'' path in
      case fetch P log url of
        Inl e \<Rightarrow> (Inl (failed_to_fetch path e), log @ [url])
      | Inr response \<Rightarrow>
          if \<not> ok response then
            let masterUrl = raw_url owner repoName ''master'' path in
            (case fetch P (log @ [url]) masterUrl of
               Inl e \<Rightarrow> (Inl (failed_to_fetch path e), log @ [url, masterUrl])
             | Inr masterResponse \<Rightarrow>
                 if \<not> ok masterResponse then
                   (Inl (failed_to_fetch path (new_Error (''File not found: '' @ path))),
                    log @ [url, masterUrl])
                 else
                   (case text masterResponse of
                      Inl e \<Rightarrow> (Inl (failed_to_fetch path e), log @ [url, masterUrl])
                    | Inr content \<Rightarrow> (Inr content, log @ [url, masterUrl])))
          else
            (case text response of
               Inl e \<Rightarrow> (Inl (failed_to_fetch path e), log @ [url])
             | Inr content \<Rightarrow> (Inr content, log @ [url])))"

definition invalid_repository_format :: "string \<Rightarrow> thrown" where
  "invalid_repository_format repoPath =
     new_Error (''Invalid repository format: '' @ repoPath
                  @ ''. Expected '' @ [CHR 0x22] @ ''owner/repo'' @ [CHR 0x22])"

text \<open>
  \<open>const [owner, repoName] = repoPath.split('/')\<close>, then \<open>!owner || !repoName\<close>:
  a missing piece and an empty piece are both falsy.
\<close>

definition fetchFileContent ::
  "platform \<Rightarrow> string list \<Rightarrow> string \<Rightarrow> string \<Rightarrow> (thrown + string) \<times> string list" where
  "fetchFileContent P log repoPath path =
     (let parts = js_split CHR ''/'' repoPath in
      case (element parts 0, element parts 1) of
        (Some owner, Some repoName) \<Rightarrow>
          if owner = [] \<or> repoName = [] then (Inl (invalid_repository_format repoPath), log)
          else fetch_main_then_master P log owner repoName path
      | _ \<Rightarrow> (Inl (invalid_repository_format repoPath), log))"

definition runCheck :: "platform \<Rightarrow> string \<Rightarrow> FileCheck \<Rightarrow> thrown + bool" where
  "runCheck P content chk =
     (let isNegated = startsWith (pattern chk) ''!'';
          pat = (if isNegated then drop 1 (pattern chk) else pattern chk)
      in case RegExp P pat of
           Inl e \<Rightarrow> Inl e
         | Inr regex \<Rightarrow>
             let matches = regex content
             in Inr (if isNegated then \<not> matches else matches))"

text \<open>
  \<open>check.exclude && check.exclude.some(exclude => exclude.repository === repoPath)\<close>
\<close>

definition is_excluded :: "FileCheck \<Rightarrow> string \<Rightarrow> bool" where
  "is_excluded chk repoPath =
     (case exclude chk of
        None \<Rightarrow> False
      | Some entries \<Rightarrow> list_ex (\<lambda>e. ExcludeEntry.repository e = repoPath) entries)"

text \<open>The \<open>try\<close> block of the loop body of \<open>checkRepository\<close> (lines 83-84).\<close>

definition fetch_and_run ::
  "platform \<Rightarrow> string list \<Rightarrow> string \<Rightarrow> FileCheck \<Rightarrow> (thrown + bool) \<times> string list" where
  "fetch_and_run P log repoPath chk =
     (case fetchFileContent P log repoPath (file chk) of
        (Inl e, log') \<Rightarrow> (Inl e, log')
      | (Inr content, log') \<Rightarrow> (runCheck P content chk, log'))"

text \<open>The Result pushed after the \<open>try\<close> block or in its \<open>catch\<close> clause (lines 86-101).\<close>

definition result_of :: "string \<Rightarrow> FileCheck \<Rightarrow> thrown + bool \<Rightarrow> CheckResult" where
  "result_of repoPath chk outcome =
     (case outcome of
        Inr p \<Rightarrow>
          \<lparr>repository = repoPath, check = chk, filePath = file chk, passed = p,
           error = None,
           requires = (if p then None else FileCheck.requires chk)\<rparr>
      | Inl e \<Rightarrow>
          \<lparr>repository = repoPath, check = chk, filePath = file chk, passed = False,
           error = Some (message_of e),
           requires = FileCheck.requires chk\<rparr>)"

fun checkRepository ::
  "platform \<Rightarrow> string list \<Rightarrow> string \<Rightarrow> FileCheck list \<Rightarrow> CheckResult list \<times> string list" where
  "checkRepository P log repoPath [] = ([], log)"
| "checkRepository P log repoPath (chk # rest) =
     (if is_excluded chk repoPath then checkRepository P log repoPath rest
      else
        (case fetch_and_run P log repoPath chk of
           (outcome, log') \<Rightarrow>
             (case checkRepository P log' repoPath rest of
                (results, log'') \<Rightarrow> (result_of repoPath chk outcome # results, log''))))"

text \<open>
  \<open>checkAllRepositories\<close> computes \<open>enabledChecks\<close>, prints its length, and then hands
  \<open>checks\<close> to \<open>checkRepository\<close> (line 116).
\<close>

fun checkAllRepositories_loop ::
  "platform \<Rightarrow> string list \<Rightarrow> string list \<Rightarrow> FileCheck list \<Rightarrow> CheckResult list \<times> string list" where
  "checkAllRepositories_loop P log [] chks = ([], log)"
| "checkAllRepositories_loop P log (repoPath # repos) chks =
     (case checkRepository P log repoPath chks of
        (results, log') \<Rightarrow>
          (case checkAllRepositories_loop P log' repos chks of
             (allResults, log'') \<Rightarrow> (results @ allResults, log'')))"

definition checkAllRepositories ::
  "platform \<Rightarrow> string list \<Rightarrow> string list \<Rightarrow> FileCheck list \<Rightarrow> CheckResult list \<times> string list" where
  "checkAllRepositories P log repos chks =
     (let enabledChecks = filter (\<lambda>chk. enabled chk \<noteq> Some False) chks
      in checkAllRepositories_loop P log repos chks)"

text \<open>
  \<open>fetchBazelContribRepositories\<close>: the query is a constant, so is its percent-encoding.
  Whatever the \<open>try\<close> block throws is thrown again with a new message.
\<close>

definition search_url :: string where
  "search_url =
     ''https://api.github.com/search/repositories?q=org%3Abazel-contrib%20topic%3Aaspect-build&per_page=100''"

definition failed_to_fetch_repositories :: "thrown \<Rightarrow> thrown" where
  "failed_to_fetch_repositories e =
     new_Error (''Failed to fetch repositories: '' @ message_of e)"

definition fetchBazelContribRepositories ::
  "platform \<Rightarrow> string list \<Rightarrow> (thrown + string list) \<times> string list" where
  "fetchBazelContribRepositories P log =
     (case fetch P log search_url of
        Inl e \<Rightarrow> (Inl (failed_to_fetch_repositories e), log @ [search_url])
      | Inr response \<Rightarrow>
          if \<not> ok response then
            (Inl (failed_to_fetch_repositories
                    (new_Error (''GitHub API request failed: '' @ status_code response
                                  @ '' '' @ statusText response))),
             log @ [search_url])
          else
            (case json response of
               Inl e \<Rightarrow> (Inl (failed_to_fetch_repositories e), log @ [search_url])
             | Inr data \<Rightarrow> (Inr (map full_name (items data)), log @ [search_url])))"

section \<open>index.ts\<close>

definition loadConfig :: "platform \<Rightarrow> string \<Rightarrow> thrown + Config" where
  "loadConfig P configPath =
     (case readConfig P configPath of
        Inl e \<Rightarrow>
          Inl (new_Error (''Failed to load config from '' @ configPath @ '': '' @ String_of e))
      | Inr config \<Rightarrow> Inr config)"

definition dynamic_is_enabled :: "Config \<Rightarrow> bool" where
  "dynamic_is_enabled config =
     (case dynamicRepositories config of None \<Rightarrow> False | Some d \<Rightarrow> dynamic_enabled d)"

definition static_repositories :: "Config \<Rightarrow> string list" where
  "static_repositories config =
     (case repositories config of
        None \<Rightarrow> []
      | Some s \<Rightarrow> if static_enabled s then static_list s else [])"

definition getRepositories ::
  "platform \<Rightarrow> string list \<Rightarrow> Config \<Rightarrow> (thrown + string list) \<times> string list" where
  "getRepositories P log config =
     (case (if dynamic_is_enabled config then fetchBazelContribRepositories P log
            else (Inr [], log)) of
        (Inl e, log') \<Rightarrow> (Inl e, log')
      | (Inr dynamicRepos, log') \<Rightarrow>
          let repos = dynamicRepos @ static_repositories config in
          if length repos = 0 then
            (Inl (new_Error (''No repositories configured. Either provide static ''
                    @ ''repositories or enable dynamic repository fetching.'')), log')
          else (Inr (Set_values [] repos), log'))"

subsection \<open>Result processing helpers\<close>

text \<open>\<open>s.replace(/\|/g, '\\|')\<close>: a backslash before every vertical bar.\<close>

definition escape_pipes :: "string \<Rightarrow> string" where
  "escape_pipes s = concat (map (\<lambda>c. if c = CHR ''|'' then [CHR 0x5C, CHR ''|''] else [c]) s)"

definition pattern_not_found :: "CheckResult \<Rightarrow> FailureStatus" where
  "pattern_not_found fl =
     \<lparr>emoji = MagnifyingGlass,
      message = ''Pattern '' @ [CHR 0x60] @ escape_pipes (pattern (check fl)) @ [CHR 0x60]
                  @ '' not found''\<rparr>"

definition getFailureStatus :: "CheckResult \<Rightarrow> FailureStatus" where
  "getFailureStatus fl =
     (if truthy (error fl) then
        (case error fl of
           Some e \<Rightarrow>
             if includes e ''File not found'' then
               \<lparr>emoji = Shrug, message = ''File not found''\<rparr>
             else \<lparr>emoji = CrossMark, message = e\<rparr>
         | None \<Rightarrow> pattern_not_found fl)
      else pattern_not_found fl)"

definition getFailedRequires :: "CheckResult \<Rightarrow> CheckResult list \<Rightarrow> RequiresEntry list" where
  "getFailedRequires fl allResults =
     (case CheckResult.requires fl of
        None \<Rightarrow> []
      | Some reqs \<Rightarrow>
          if length reqs = 0 then []
          else
            filter
              (\<lambda>req.
                 case find (\<lambda>r. name (check r) = RequiresEntry.check req
                                  \<and> repository r = repository fl) allResults of
                   None \<Rightarrow> False
                 | Some requiredCheckResult \<Rightarrow> \<not> passed requiredCheckResult)
              reqs)"

text \<open>
  One round of the loop of \<open>processResults\<close>.  The program mutates the inner map and the
  list in place; here the updated values are stored back under their keys, which keeps
  the keys where they are.  The \<open>None\<close> branches after a \<open>Map.get\<close> are the program's
  non-null assertions: the key was set just before.
\<close>

definition add_failure ::
  "CheckResult list \<Rightarrow> (string, (string, ProcessedFailure list) Map) Map \<Rightarrow> CheckResult
     \<Rightarrow> (string, (string, ProcessedFailure list) Map) Map" where
  "add_failure results grouped fl =
     (let grouped1 = (if \<not> Map_has grouped (name (check fl))
                      then Map_set grouped (name (check fl)) [] else grouped);
          repoMap = (case Map_get grouped1 (name (check fl)) of None \<Rightarrow> [] | Some m \<Rightarrow> m);
          repoMap1 = (if \<not> Map_has repoMap (repository fl)
                      then Map_set repoMap (repository fl) [] else repoMap);
          failures = (case Map_get repoMap1 (repository fl) of None \<Rightarrow> [] | Some fs \<Rightarrow> fs);
          entry = \<lparr>failure = fl, repo = repository fl, status = getFailureStatus fl,
                   failedRequires = getFailedRequires fl results\<rparr>
      in Map_set grouped1 (name (check fl))
           (Map_set repoMap1 (repository fl) (failures @ [entry])))"

definition processResults :: "CheckResult list \<Rightarrow> GroupedResults" where
  "processResults results =
     (let failedResults = filter (\<lambda>r. \<not> passed r) results;
          passedN = length (filter (\<lambda>r. passed r) results)
      in \<lparr>failedCount = length failedResults, passedCount = passedN,
          byCheck = foldl (add_failure results) [] failedResults\<rparr>)"

subsection \<open>Report generation\<close>

text \<open>
  \<open>[...keys].sort()\<close> without a comparator orders strings by their code units,
  lexicographically, a proper prefix first: \<open>sort\<close> on \<open>string\<close> with the order on
  characters by code and the lexicographic order on lists.
\<close>

text \<open>
  The reference example is read from the first failure of the first repository of the
  group, in insertion order.  Reading from an empty map or list would raise a TypeError;
  \<open>processResults\<close> stores neither, and these branches yield \<open>None\<close> here.
\<close>

definition referenceExample_of :: "(string, ProcessedFailure list) Map \<Rightarrow> string option" where
  "referenceExample_of repoMap =
     (case Map_keys repoMap of
        [] \<Rightarrow> None
      | firstRepo # _ \<Rightarrow>
          (case Map_get repoMap firstRepo of
             None \<Rightarrow> None
           | Some [] \<Rightarrow> None
           | Some (firstFailure # _) \<Rightarrow> reference_example (check (failure firstFailure))))"

definition table_rows ::
  "(string, ProcessedFailure list) Map \<Rightarrow> string option \<Rightarrow> string \<Rightarrow> md_line list" where
  "table_rows repoMap referenceExample repoPath =
     map (\<lambda>entry. TableRow repoPath (filePath (failure entry)) (status entry)
                     (failedRequires entry) referenceExample)
       (case Map_get repoMap repoPath of None \<Rightarrow> [] | Some entries \<Rightarrow> entries)"

definition check_section ::
  "(string, (string, ProcessedFailure list) Map) Map \<Rightarrow> string \<Rightarrow> md_line list" where
  "check_section grouped checkName =
     (let repoMap = (case Map_get grouped checkName of None \<Rightarrow> [] | Some m \<Rightarrow> m);
          referenceExample = referenceExample_of repoMap;
          sortedRepos = sort (Map_keys repoMap)
      in [CheckHeading checkName, Blank, TableHeader, TableRule]
           @ concat (map (table_rows repoMap referenceExample) sortedRepos)
           @ [Blank])"

definition generateMarkdownReport :: "platform \<Rightarrow> CheckResult list \<Rightarrow> md_line list" where
  "generateMarkdownReport P results =
     (let processed = processResults results;
          heading = [Title, Blank, Generated (now P), Blank]
      in if failedCount processed = 0 then heading @ [AllChecksPassed]
         else
           let sortedChecks = sort (Map_keys (byCheck processed))
           in heading
                @ [SummaryHeading, Blank, FailedChecksCount (failedCount processed),
                   PassedChecksCount (passedCount processed), Blank, FailedChecksHeading, Blank]
                @ concat (map (check_section (byCheck processed)) sortedChecks))"

subsection \<open>main\<close>

text \<open>
  What a run leaves behind: the exit code, the message printed by \<open>console.error\<close> (if
  any), the URLs requested in order, and the report written to \<open>report.md\<close> (if any).
  The console output of \<open>reportResults\<close> and of \<open>console.log\<close> is not modelled.
\<close>

record RunOutcome =
  exit_code :: nat
  stderr :: "string option"
  requested :: "string list"
  written :: "md_line list option"

text \<open>The \<open>catch\<close> clause of \<open>main\<close> (lines 246-249).\<close>

definition failed_run :: "thrown \<Rightarrow> string list \<Rightarrow> RunOutcome" where
  "failed_run e log =
     \<lparr>exit_code = 1, stderr = Some (''Error: '' @ message_of e), requested = log,
      written = None\<rparr>"

text \<open>Lines 232-244 of \<open>main\<close>.\<close>

definition run_checks ::
  "platform \<Rightarrow> string list \<Rightarrow> string list \<Rightarrow> FileCheck list \<Rightarrow> RunOutcome" where
  "run_checks P log repos chks =
     (case checkAllRepositories P log repos chks of
        (results, log') \<Rightarrow>
          let markdownReport = generateMarkdownReport P results in
          (case writeFile P ''report.md'' markdownReport of
             Some e \<Rightarrow> failed_run e log'
           | None \<Rightarrow>
               \<lparr>exit_code = (if list_ex (\<lambda>result. \<not> passed result) results then 1 else 0),
                stderr = None, requested = log', written = Some markdownReport\<rparr>))"

text \<open>\<open>checkName\<close> is \<open>process.argv[2]\<close>, \<open>undefined\<close> when the argument is absent.\<close>

definition main :: "platform \<Rightarrow> string option \<Rightarrow> RunOutcome" where
  "main P checkName =
     (case loadConfig P ''config.json'' of
        Inl e \<Rightarrow> failed_run e []
      | Inr config \<Rightarrow>
          (case getRepositories P [] config of
             (Inl e, log) \<Rightarrow> failed_run e log
           | (Inr repos, log) \<Rightarrow>
               if truthy checkName then
                 let chks = filter (\<lambda>chk. Some (name chk) = checkName) (checks config) in
                 if length chks = 0 then
                   \<lparr>exit_code = 1,
                    stderr = Some (''Error: No check found with name '' @ [CHR 0x27]
                                     @ (case checkName of None \<Rightarrow> [] | Some n \<Rightarrow> n)
                                     @ [CHR 0x27]),
                    requested = log, written = None\<rparr>
                 else run_checks P log repos chks
               else run_checks P log repos (checks config)))"

section \<open>A sample platform and sample checks\<close>

text \<open>
  The examples below run the program on a small world: a network that serves the files
  of a table and answers 404 for any other URL, and a regular-expression engine that
  knows the pattern \<open>.*\<close>, rejects the pattern \<open>(\<close> and searches any other pattern as a
  literal text (so the examples use only patterns without special characters).
\<close>

definition not_found_Response :: Response where
  "not_found_Response =
     \<lparr>ok = False, status_code = ''404'', statusText = ''Not Found'',
      text = Inr ''404: Not Found'',
      json = Inl (ErrorObject ''SyntaxError'' ''Unexpected non-whitespace character'')\<rparr>"

definition file_Response :: "string \<Rightarrow> Response" where
  "file_Response content =
     \<lparr>ok = True, status_code = ''200'', statusText = ''OK'', text = Inr content,
      json = Inl (ErrorObject ''SyntaxError'' ''Unexpected token'')\<rparr>"

definition search_Response :: "string list \<Rightarrow> Response" where
  "search_Response names =
     \<lparr>ok = True, status_code = ''200'', statusText = ''OK'', text = Inr ''{}'',
      json = Inr \<lparr>items = map (\<lambda>n. \<lparr>full_name = n, topics = [''aspect-build'']\<rparr>) names,
                  total_count = length names\<rparr>\<rparr>"

definition sample_fetch ::
  "string list \<Rightarrow> (string \<times> string) list \<Rightarrow> string list \<Rightarrow> string \<Rightarrow> thrown + Response" where
  "sample_fetch discovered files log url =
     (if url = search_url then Inr (search_Response discovered)
      else (case map_of files url of
              None \<Rightarrow> Inr not_found_Response
            | Some content \<Rightarrow> Inr (file_Response content)))"

definition unterminated_group :: thrown where
  "unterminated_group =
     ErrorObject ''SyntaxError'' ''Invalid regular expression: /(/: Unterminated group''"

definition sample_RegExp :: "string \<Rightarrow> thrown + (string \<Rightarrow> bool)" where
  "sample_RegExp p =
     (if p = ''('' then Inl unterminated_group
      else if p = ''.*'' then Inr (\<lambda>content. True)
      else Inr (\<lambda>content. includes content p))"

definition sample_platform :: "Config \<Rightarrow> string list \<Rightarrow> (string \<times> string) list \<Rightarrow> platform" where
  "sample_platform config discovered files =
     \<lparr>fetch = sample_fetch discovered files, RegExp = sample_RegExp,
      readConfig = (\<lambda>path. Inr config), writeFile = (\<lambda>path lines. None),
      now = ''2026-01-01T00:00:00.000Z''\<rparr>"

definition sample_check :: "string \<Rightarrow> string \<Rightarrow> string \<Rightarrow> FileCheck" where
  "sample_check n f p =
     \<lparr>name = n, file = f, pattern = p, description = None, enabled = None, exclude = None,
      requires = None, reference_example = None\<rparr>"

definition sample_config :: "FileCheck list \<Rightarrow> Config" where
  "sample_config chks =
     \<lparr>repositories = Some \<lparr>static_enabled = True, static_list = [''acme/widgets'']\<rparr>,
      dynamicRepositories = None, checks = chks\<rparr>"

definition license_check :: FileCheck where
  "license_check = sample_check ''has-license'' ''LICENSE'' ''.*''"

definition todo_check :: FileCheck where
  "todo_check = sample_check ''no-todo'' ''README.md'' ''!TODO''"

definition broken_check :: FileCheck where
  "broken_check = sample_check ''broken'' ''LICENSE'' ''(''"

definition negated_broken_check :: FileCheck where
  "negated_broken_check = sample_check ''negated-broken'' ''LICENSE'' ''!(''"

definition widgets_exclusion :: ExcludeEntry where
  "widgets_exclusion =
     \<lparr>ExcludeEntry.repository = ''acme/widgets'', ExcludeEntry.reason = Some ''not applicable''\<rparr>"

definition excluded_check :: FileCheck where
  "excluded_check =
     (sample_check ''excluded'' ''LICENSE'' ''GPL'')\<lparr>exclude := Some [widgets_exclusion]\<rparr>"

definition disabled_check :: FileCheck where
  "disabled_check = (sample_check ''disabled'' ''LICENSE'' ''GPL'')\<lparr>enabled := Some False\<rparr>"

definition needs_license :: RequiresEntry where
  "needs_license = \<lparr>RequiresEntry.check = ''has-license'', RequiresEntry.reason = Some ''add a license first''\<rparr>"

definition gpl_check :: FileCheck where
  "gpl_check =
     (sample_check ''license-is-gpl'' ''LICENSE'' ''GPL'')\<lparr>FileCheck.requires := Some [needs_license]\<rparr>"

definition widgets_files :: "(string \<times> string) list" where
  "widgets_files =
     [(''https://raw.githubusercontent.com/acme/widgets/master/LICENSE'', ''MIT License''),
      (''https://raw.githubusercontent.com/acme/widgets/main/README.md'', ''TODO: write this'')]"

definition widgets_world :: "FileCheck list \<Rightarrow> platform" where
  "widgets_world chks = sample_platform (sample_config chks) [] widgets_files"

definition five_checks :: "FileCheck list" where
  "five_checks = [license_check, todo_check, broken_check, excluded_check, disabled_check]"


definition copying_check :: FileCheck where
  "copying_check = sample_check ''has-license'' ''COPYING'' ''.*''"

definition duplicate_name_results :: "CheckResult list" where
  "duplicate_name_results =
     fst (checkAllRepositories (widgets_world []) [] [''acme/widgets'']
            [license_check, copying_check, gpl_check])"


definition readme_check :: FileCheck where
  "readme_check = sample_check ''has-readme'' ''README.md'' ''.*''"

definition needs_readme :: RequiresEntry where
  "needs_readme = \<lparr>RequiresEntry.check = ''has-readme'', RequiresEntry.reason = None\<rparr>"

definition needs_no_todo :: RequiresEntry where
  "needs_no_todo =
     \<lparr>RequiresEntry.check = ''no-todo'', RequiresEntry.reason = Some ''finish the README first''\<rparr>"

definition needs_contributing :: RequiresEntry where
  "needs_contributing =
     \<lparr>RequiresEntry.check = ''has-contributing'', RequiresEntry.reason = None\<rparr>"

definition strict_check :: FileCheck where
  "strict_check =
     (sample_check ''license-is-apache'' ''LICENSE'' ''Apache'')
       \<lparr>FileCheck.requires :=
          Some [needs_readme, needs_no_todo, needs_contributing, needs_license]\<rparr>"

definition widgets_results :: "CheckResult list" where
  "widgets_results =
     fst (checkAllRepositories (widgets_world []) [] [''acme/widgets'']
            [license_check, readme_check, todo_check, strict_check])"

definition pipe_check :: FileCheck where
  "pipe_check = sample_check ''license-kind'' ''LICENSE'' ''GPL|BSD''"

definition five_results :: "CheckResult list" where
  "five_results = fst (checkRepository (widgets_world []) [] ''acme/widgets'' five_checks)"

definition dynamic_config :: "FileCheck list \<Rightarrow> Config" where
  "dynamic_config chks =
     \<lparr>repositories = None,
      dynamicRepositories =
        Some \<lparr>dynamic_enabled = True, dynamic_source = ''github'',
              dynamic_organization = ''bazel-contrib'', dynamic_topic = ''aspect-build''\<rparr>,
      checks = chks\<rparr>"

definition discovering_world :: platform where
  "discovering_world =
     sample_platform (dynamic_config [license_check]) [''acme/widgets''] widgets_files"

definition two_repository_results :: "CheckResult list" where
  "two_repository_results =
     fst (checkAllRepositories (widgets_world []) [] [''acme/widgets'', ''acme/gadgets'']
            [todo_check, license_check])"

text \<open>
  A check whose pattern is no regular expression and contains the words
  \<open>File not found\<close>, and a world whose engine rejects it with a message that quotes
  the pattern, as \<open>new RegExp\<close> does.
\<close>

definition quoting_check :: FileCheck where
  "quoting_check = sample_check ''quotes-the-words'' ''LICENSE'' ''(File not found''"

definition unterminated_group_quoted :: thrown where
  "unterminated_group_quoted =
     ErrorObject ''SyntaxError''
       ''Invalid regular expression: /(File not found/: Unterminated group''"

definition quoting_RegExp :: "string \<Rightarrow> thrown + (string \<Rightarrow> bool)" where
  "quoting_RegExp p =
     (if p = ''(File not found'' then Inl unterminated_group_quoted else sample_RegExp p)"

definition quoting_world :: platform where
  "quoting_world =
     \<lparr>fetch = sample_fetch [] widgets_files, RegExp = quoting_RegExp,
      readConfig = (\<lambda>path. Inr (sample_config [quoting_check])),
      writeFile = (\<lambda>path lines. None), now = ''2026-01-01T00:00:00.000Z''\<rparr>"

section \<open>Vocabulary of the statements\<close>

text \<open>The declared prerequisite entries a Result carries.\<close>

definition declared_requires :: "CheckResult \<Rightarrow> RequiresEntry list" where
  "declared_requires fl = (case CheckResult.requires fl of None \<Rightarrow> [] | Some reqs \<Rightarrow> reqs)"

text \<open>The test of the \<open>find\<close> in \<open>getFailedRequires\<close>.\<close>

definition answers :: "RequiresEntry \<Rightarrow> CheckResult \<Rightarrow> CheckResult \<Rightarrow> bool" where
  "answers req fl r \<longleftrightarrow>
     name (check r) = RequiresEntry.check req \<and> repository r = repository fl"

text \<open>The Results that did not pass, in the order they were produced.\<close>

definition failed_results :: "CheckResult list \<Rightarrow> CheckResult list" where
  "failed_results results = filter (\<lambda>r. \<not> passed r) results"

text \<open>
  The report as the claim words it: check names sorted, below each check its
  repositories sorted, below each repository its failures in the order of the Results.
\<close>

definition section_in_words :: "CheckResult list \<Rightarrow> string \<Rightarrow> md_line list" where
  "section_in_words results c =
     (let of_check = filter (\<lambda>r. name (check r) = c) (failed_results results);
          referenceExample =
            (case of_check of [] \<Rightarrow> None | first # _ \<Rightarrow> reference_example (check first))
      in [CheckHeading c, Blank, TableHeader, TableRule]
           @ concat (map (\<lambda>rp. map (\<lambda>fl. TableRow rp (filePath fl) (getFailureStatus fl)
                                            (getFailedRequires fl results) referenceExample)
                                  (filter (\<lambda>r. repository r = rp) of_check))
                       (sort (remdups (map repository of_check))))
           @ [Blank])"

definition report_in_words :: "string \<Rightarrow> CheckResult list \<Rightarrow> md_line list" where
  "report_in_words generated results =
     (if failed_results results = [] then [Title, Blank, Generated generated, Blank, AllChecksPassed]
      else [Title, Blank, Generated generated, Blank, SummaryHeading, Blank,
            FailedChecksCount (length (failed_results results)),
            PassedChecksCount (length (filter (\<lambda>r. passed r) results)), Blank,
            FailedChecksHeading, Blank]
           @ concat (map (section_in_words results)
                       (sort (remdups (map (\<lambda>r. name (check r)) (failed_results results))))))"

text \<open>The check names in the headings of a report, in the order of the lines.\<close>

fun check_headings :: "md_line list \<Rightarrow> string list" where
  "check_headings [] = []"
| "check_headings (CheckHeading c # ls) = c # check_headings ls"
| "check_headings (l # ls) = check_headings ls"

text \<open>The grouping that \<open>processResults\<close> builds, written without maps.\<close>

definition tabulate :: "('k \<Rightarrow> 'v) \<Rightarrow> 'k list \<Rightarrow> ('k, 'v) Map" where
  "tabulate F ks = map (\<lambda>k. (k, F k)) ks"

definition entry_of :: "CheckResult list \<Rightarrow> CheckResult \<Rightarrow> ProcessedFailure" where
  "entry_of results fl =
     \<lparr>failure = fl, repo = repository fl, status = getFailureStatus fl,
      failedRequires = getFailedRequires fl results\<rparr>"

definition entries_of ::
  "CheckResult list \<Rightarrow> CheckResult list \<Rightarrow> string \<Rightarrow> string \<Rightarrow> ProcessedFailure list" where
  "entries_of results fs c rp =
     map (entry_of results) (filter (\<lambda>r. name (check r) = c \<and> repository r = rp) fs)"

definition repo_groups ::
  "CheckResult list \<Rightarrow> CheckResult list \<Rightarrow> string \<Rightarrow> (string, ProcessedFailure list) Map" where
  "repo_groups results fs c =
     tabulate (entries_of results fs c)
       (Set_values [] (map repository (filter (\<lambda>r. name (check r) = c) fs)))"

definition check_groups ::
  "CheckResult list \<Rightarrow> CheckResult list
     \<Rightarrow> (string, (string, ProcessedFailure list) Map) Map" where
  "check_groups results fs =
     tabulate (repo_groups results fs) (Set_values [] (map (\<lambda>r. name (check r)) fs))"

section \<open>Properties of the check runner\<close>

lemma result_of_fields [simp]:
  "repository (result_of rp chk outcome) = rp"
  "check (result_of rp chk outcome) = chk"
  "filePath (result_of rp chk outcome) = file chk"
  by (simp_all add: result_of_def split: sum.splits)

lemma result_of_passed:
  "passed (result_of rp chk outcome) \<Longrightarrow>
     error (result_of rp chk outcome) = None \<and> CheckResult.requires (result_of rp chk outcome) = None"
  by (cases outcome) (simp_all add: result_of_def)

lemma result_of_failed:
  "\<not> passed (result_of rp chk outcome) \<Longrightarrow>
     CheckResult.requires (result_of rp chk outcome) = FileCheck.requires chk"
  by (cases outcome) (simp_all add: result_of_def)

lemma result_of_raised:
  "result_of rp chk (Inl e) =
     \<lparr>repository = rp, check = chk, filePath = file chk, passed = False,
      error = Some (message_of e), requires = FileCheck.requires chk\<rparr>"
  by (simp add: result_of_def)

lemma checkRepository_excluded [simp]:
  "is_excluded chk rp \<Longrightarrow> checkRepository P log rp (chk # rest) = checkRepository P log rp rest"
  by simp

lemma checkRepository_applicable:
  "\<not> is_excluded chk rp \<Longrightarrow>
     checkRepository P log rp (chk # rest) =
       (result_of rp chk (fst (fetch_and_run P log rp chk))
          # fst (checkRepository P (snd (fetch_and_run P log rp chk)) rp rest),
        snd (checkRepository P (snd (fetch_and_run P log rp chk)) rp rest))"
  by (simp split: prod.splits)

lemma checkRepository_results:
  "r \<in> set (fst (checkRepository P log rp chks)) \<Longrightarrow>
     \<exists>chk outcome. chk \<in> set chks \<and> \<not> is_excluded chk rp \<and> r = result_of rp chk outcome"
proof (induction chks arbitrary: log)
  case Nil
  then show ?case by simp
next
  case (Cons a chks)
  show ?case
  proof (cases "is_excluded a rp")
    case True
    with Cons.prems have "r \<in> set (fst (checkRepository P log rp chks))" by simp
    from Cons.IH[OF this] show ?thesis by auto
  next
    case False
    let ?l1 = "snd (fetch_and_run P log rp a)"
    from Cons.prems False
    have "r = result_of rp a (fst (fetch_and_run P log rp a))
            \<or> r \<in> set (fst (checkRepository P ?l1 rp chks))"
      by (simp add: checkRepository_applicable del: checkRepository.simps)
    then show ?thesis
    proof
      assume "r = result_of rp a (fst (fetch_and_run P log rp a))"
      with False show ?thesis by auto
    next
      assume "r \<in> set (fst (checkRepository P ?l1 rp chks))"
      from Cons.IH[OF this] show ?thesis by auto
    qed
  qed
qed

lemma checkAllRepositories_loop_Cons:
  "checkAllRepositories_loop P log (rp # repos) chks =
     (fst (checkRepository P log rp chks)
        @ fst (checkAllRepositories_loop P (snd (checkRepository P log rp chks)) repos chks),
      snd (checkAllRepositories_loop P (snd (checkRepository P log rp chks)) repos chks))"
  by (simp split: prod.splits)

lemma checkAllRepositories_results:
  "r \<in> set (fst (checkAllRepositories P log repos chks)) \<Longrightarrow>
     \<exists>rp chk outcome. rp \<in> set repos \<and> chk \<in> set chks \<and> \<not> is_excluded chk rp
        \<and> r = result_of rp chk outcome"
  unfolding checkAllRepositories_def Let_def
proof (induction repos arbitrary: log)
  case Nil
  then show ?case by simp
next
  case (Cons rp repos)
  let ?l1 = "snd (checkRepository P log rp chks)"
  from Cons.prems
  have "r \<in> set (fst (checkRepository P log rp chks))
          \<or> r \<in> set (fst (checkAllRepositories_loop P ?l1 repos chks))"
    by (simp add: checkAllRepositories_loop_Cons del: checkAllRepositories_loop.simps)
  then show ?case
  proof
    assume "r \<in> set (fst (checkRepository P log rp chks))"
    from checkRepository_results[OF this] show ?thesis by auto
  next
    assume "r \<in> set (fst (checkAllRepositories_loop P ?l1 repos chks))"
    from Cons.IH[OF this] show ?thesis by auto
  qed
qed

lemma is_excluded_iff:
  "is_excluded chk rp \<longleftrightarrow>
     (\<exists>entries e. exclude chk = Some entries \<and> e \<in> set entries \<and> ExcludeEntry.repository e = rp)"
  by (auto simp: is_excluded_def list_ex_iff split: option.splits)

lemma checkRepository_checks:
  "map check (fst (checkRepository P log rp chks)) = filter (\<lambda>c. \<not> is_excluded c rp) chks"
proof (induction chks arbitrary: log)
  case Nil
  show ?case by simp
next
  case (Cons a chks)
  show ?case
  proof (cases "is_excluded a rp")
    case True
    then show ?thesis using Cons.IH by simp
  next
    case False
    then show ?thesis using Cons.IH
      by (simp add: checkRepository_applicable del: checkRepository.simps)
  qed
qed

lemma checkRepository_append:
  "checkRepository P log rp (xs @ ys) =
     (fst (checkRepository P log rp xs)
        @ fst (checkRepository P (snd (checkRepository P log rp xs)) rp ys),
      snd (checkRepository P (snd (checkRepository P log rp xs)) rp ys))"
proof (induction xs arbitrary: log)
  case Nil
  show ?case by simp
next
  case (Cons a xs)
  show ?case
  proof (cases "is_excluded a rp")
    case True
    then show ?thesis using Cons.IH by simp
  next
    case False
    then show ?thesis using Cons.IH
      by (simp add: checkRepository_applicable del: checkRepository.simps)
  qed
qed

lemma never_equal_not_in_image: "\<forall>r \<in> A. f r \<noteq> c \<Longrightarrow> c \<notin> f ` A"
  by blast

lemma never_both_not_in_image:
  "\<forall>r \<in> A. \<not> (f r = c \<and> g r = d) \<Longrightarrow> (c, d) \<notin> (\<lambda>r. (f r, g r)) ` A"
  by blast

lemma holds_for_member: "\<forall>r \<in> A. Q r \<Longrightarrow> x \<in> A \<Longrightarrow> Q x"
  by blast

section \<open>The claims about the check runner\<close>

text \<open>
  Claim C1: a check whose \<open>enabled\<close> field is \<open>false\<close> never produces a Result.
  \<open>checkAllRepositories\<close> filters the enabled checks into \<open>enabledChecks\<close> but runs
  \<open>checkRepository\<close> on the unfiltered list, so the disabled check of the sample is
  fetched, evaluated and reported like any other.
\<close>

theorem disabled_check_still_runs:
  "enabled disabled_check = Some False
 \<and> fst (checkAllRepositories (widgets_world [disabled_check]) [] [''acme/widgets''] [disabled_check])
      = [\<lparr>repository = ''acme/widgets'', check = disabled_check, filePath = ''LICENSE'',
          passed = False, error = None, requires = None\<rparr>]"
  by code_simp

text \<open>
  Claim C2: a pattern \<open>!X\<close> is satisfied exactly when the regular expression \<open>X\<close> finds
  no match in the content, and a pattern without the marker exactly when it finds one.
  Here \<open>matcher\<close> is the search \<open>new RegExp\<close> yields for the pattern.  When the
  pattern is no regular expression, \<open>new RegExp\<close> throws and so does the evaluator.
\<close>

theorem runCheck_negation:
  "(pattern chk = CHR ''!'' # X \<and> RegExp P X = Inr matcher
      \<longrightarrow> runCheck P content chk = Inr (\<not> matcher content))
 \<and> (\<not> startsWith (pattern chk) ''!'' \<and> RegExp P (pattern chk) = Inr matcher
      \<longrightarrow> runCheck P content chk = Inr (matcher content))
 \<and> (pattern chk = CHR ''!'' # X \<and> RegExp P X = Inl e
      \<longrightarrow> runCheck P content chk = Inl e)
 \<and> (\<not> startsWith (pattern chk) ''!'' \<and> RegExp P (pattern chk) = Inl e
      \<longrightarrow> runCheck P content chk = Inl e)"
  by (simp add: runCheck_def Let_def)

theorem runCheck_negation_witness:
  "pattern todo_check = CHR ''!'' # ''TODO''
 \<and> RegExp (widgets_world []) ''TODO'' = Inr (\<lambda>content. includes content ''TODO'')
 \<and> runCheck (widgets_world []) ''TODO: write this'' todo_check = Inr False
 \<and> runCheck (widgets_world []) ''All done'' todo_check = Inr True
 \<and> \<not> startsWith (pattern gpl_check) ''!''
 \<and> RegExp (widgets_world []) (pattern gpl_check) = Inr (\<lambda>content. includes content ''GPL'')
 \<and> runCheck (widgets_world []) ''MIT License'' gpl_check = Inr False
 \<and> runCheck (widgets_world []) ''GPL-3.0'' gpl_check = Inr True
 \<and> pattern negated_broken_check = CHR ''!'' # ''(''
 \<and> RegExp (widgets_world []) ''('' = Inl unterminated_group
 \<and> runCheck (widgets_world []) ''MIT License'' negated_broken_check = Inl unterminated_group
 \<and> \<not> startsWith (pattern broken_check) ''!''
 \<and> RegExp (widgets_world []) (pattern broken_check) = Inl unterminated_group
 \<and> runCheck (widgets_world []) ''MIT License'' broken_check = Inl unterminated_group"
proof -
  let ?W = "widgets_world []"
  have h1: "pattern todo_check = CHR ''!'' # ''TODO''"
    by (simp add: todo_check_def sample_check_def)
  have h2: "RegExp ?W ''TODO'' = Inr (\<lambda>content. includes content ''TODO'')"
    by (simp add: widgets_world_def sample_platform_def sample_RegExp_def)
  have h3: "\<not> startsWith (pattern gpl_check) ''!''"
    by (simp add: gpl_check_def sample_check_def)
  have h4: "RegExp ?W (pattern gpl_check) = Inr (\<lambda>content. includes content ''GPL'')"
    by (simp add: widgets_world_def sample_platform_def sample_RegExp_def gpl_check_def
          sample_check_def)
  from runCheck_negation[of todo_check "''TODO''" ?W _ "''TODO: write this''"] h1 h2
  have a: "runCheck ?W ''TODO: write this'' todo_check = Inr False" by simp
  from runCheck_negation[of todo_check "''TODO''" ?W _ "''All done''"] h1 h2
  have b: "runCheck ?W ''All done'' todo_check = Inr True" by simp
  from runCheck_negation[of gpl_check _ ?W _ "''MIT License''"] h3 h4
  have c: "runCheck ?W ''MIT License'' gpl_check = Inr False" by simp
  from runCheck_negation[of gpl_check _ ?W _ "''GPL-3.0''"] h3 h4
  have d: "runCheck ?W ''GPL-3.0'' gpl_check = Inr True" by simp
  have h5: "pattern negated_broken_check = CHR ''!'' # ''(''"
    by (simp add: negated_broken_check_def sample_check_def)
  have h6: "RegExp ?W ''('' = Inl unterminated_group"
    by (simp add: widgets_world_def sample_platform_def sample_RegExp_def unterminated_group_def)
  have h7: "\<not> startsWith (pattern broken_check) ''!''"
    by (simp add: broken_check_def sample_check_def)
  have h8: "RegExp ?W (pattern broken_check) = Inl unterminated_group"
    by (simp add: widgets_world_def sample_platform_def sample_RegExp_def unterminated_group_def
          broken_check_def sample_check_def)
  from h5 h6 have h56: "pattern negated_broken_check = CHR ''!'' # ''(''
      \<and> RegExp ?W ''('' = Inl unterminated_group"
    by (rule conjI)
  note f = runCheck_negation[of negated_broken_check "''(''" ?W _ "''MIT License''"
             unterminated_group, THEN conjunct2, THEN conjunct2, THEN conjunct1, THEN mp, OF h56]
  from h7 h8 have h78: "\<not> startsWith (pattern broken_check) ''!''
      \<and> RegExp ?W (pattern broken_check) = Inl unterminated_group"
    by (rule conjI)
  note g = runCheck_negation[of broken_check _ ?W _ "''MIT License''" unterminated_group,
             THEN conjunct2, THEN conjunct2, THEN conjunct2, THEN mp, OF h78]
  from h1 h2 a b h3 h4 c d h5 h6 f h7 h8 g show ?thesis by (intro conjI)
qed

text \<open>
  Claim C5: when a repository is in the exclusion list of a check, neither
  \<open>checkRepository\<close> for that repository nor \<open>checkAllRepositories\<close> returns a Result
  for the pair.
\<close>

theorem excluded_pair_has_no_result:
  assumes "exclude chk = Some entries" and "e \<in> set entries"
    and "ExcludeEntry.repository e = rp"
  shows "(\<forall>r \<in> set (fst (checkRepository P log rp chks)). check r \<noteq> chk)
       \<and> (\<forall>r \<in> set (fst (checkAllRepositories P log repos chks)).
            \<not> (check r = chk \<and> repository r = rp))"
proof -
  from assms have ex: "is_excluded chk rp" by (auto simp: is_excluded_iff)
  have "check r \<noteq> chk" if "r \<in> set (fst (checkRepository P log rp chks))" for r
    using checkRepository_results[OF that] ex by auto
  moreover have "\<not> (check r = chk \<and> repository r = rp)"
    if "r \<in> set (fst (checkAllRepositories P log repos chks))" for r
    using checkAllRepositories_results[OF that] ex by auto
  ultimately show ?thesis by blast
qed

theorem excluded_pair_has_no_result_witness:
  "exclude excluded_check = Some [widgets_exclusion]
 \<and> widgets_exclusion \<in> set [widgets_exclusion]
 \<and> ExcludeEntry.repository widgets_exclusion = ''acme/widgets''
 \<and> excluded_check \<in> set five_checks
 \<and> excluded_check \<notin> check ` set (fst (checkRepository (widgets_world []) [] ''acme/widgets'' five_checks))
 \<and> (excluded_check, ''acme/widgets'')
      \<notin> (\<lambda>r. (check r, repository r))
          ` set (fst (checkAllRepositories (widgets_world []) [] [''acme/gadgets'', ''acme/widgets'']
                        five_checks))
 \<and> length (fst (checkAllRepositories (widgets_world []) [] [''acme/gadgets'', ''acme/widgets'']
                        five_checks)) = 9"
proof -
  have h1: "exclude excluded_check = Some [widgets_exclusion]"
    by (simp add: excluded_check_def)
  have h2: "widgets_exclusion \<in> set [widgets_exclusion]" by simp
  have h3: "ExcludeEntry.repository widgets_exclusion = ''acme/widgets''"
    by (simp add: widgets_exclusion_def)
  have h4: "excluded_check \<in> set five_checks" by (simp add: five_checks_def)
  note t = excluded_pair_has_no_result[OF h1 h2 h3, of "widgets_world []" "[]" five_checks
             "[''acme/gadgets'', ''acme/widgets'']"]
  from t[THEN conjunct1] have a: "excluded_check
      \<notin> check ` set (fst (checkRepository (widgets_world []) [] ''acme/widgets'' five_checks))"
    by (rule never_equal_not_in_image)
  from t[THEN conjunct2] have b: "(excluded_check, ''acme/widgets'')
      \<notin> (\<lambda>r. (check r, repository r))
          ` set (fst (checkAllRepositories (widgets_world []) [] [''acme/gadgets'', ''acme/widgets'']
                        five_checks))"
    by (rule never_both_not_in_image)
  have c: "length (fst (checkAllRepositories (widgets_world []) [] [''acme/gadgets'', ''acme/widgets'']
                        five_checks)) = 9"
    by code_simp
  from h1 h2 h3 h4 a b c show ?thesis by (intro conjI)
qed

text \<open>
  Claim C6: a Result that passed has no error and no prerequisites; a Result that did not
  pass carries the \<open>requires\<close> list of its check as declared.
\<close>

theorem requires_carried_iff_failed:
  "(\<forall>r \<in> set (fst (checkRepository P log rp chks)).
      (passed r \<longrightarrow> error r = None \<and> CheckResult.requires r = None)
    \<and> (\<not> passed r \<longrightarrow> CheckResult.requires r = FileCheck.requires (check r)))
 \<and> (\<forall>r \<in> set (fst (checkAllRepositories P log repos chks)).
      (passed r \<longrightarrow> error r = None \<and> CheckResult.requires r = None)
    \<and> (\<not> passed r \<longrightarrow> CheckResult.requires r = FileCheck.requires (check r)))"
proof -
  have one: "(passed r \<longrightarrow> error r = None \<and> CheckResult.requires r = None)
           \<and> (\<not> passed r \<longrightarrow> CheckResult.requires r = FileCheck.requires (check r))"
    if "r = result_of rp' chk outcome" for r rp' chk outcome
    using that result_of_passed[of rp' chk outcome] result_of_failed[of rp' chk outcome]
    by simp
  have single: "\<forall>r \<in> set (fst (checkRepository P log rp chks)).
      (passed r \<longrightarrow> error r = None \<and> CheckResult.requires r = None)
    \<and> (\<not> passed r \<longrightarrow> CheckResult.requires r = FileCheck.requires (check r))"
  proof (rule ballI)
    fix r assume "r \<in> set (fst (checkRepository P log rp chks))"
    from checkRepository_results[OF this] obtain chk outcome
      where "r = result_of rp chk outcome" by blast
    then show "(passed r \<longrightarrow> error r = None \<and> CheckResult.requires r = None)
           \<and> (\<not> passed r \<longrightarrow> CheckResult.requires r = FileCheck.requires (check r))"
      by (rule one)
  qed
  have every: "\<forall>r \<in> set (fst (checkAllRepositories P log repos chks)).
      (passed r \<longrightarrow> error r = None \<and> CheckResult.requires r = None)
    \<and> (\<not> passed r \<longrightarrow> CheckResult.requires r = FileCheck.requires (check r))"
  proof (rule ballI)
    fix r assume "r \<in> set (fst (checkAllRepositories P log repos chks))"
    from checkAllRepositories_results[OF this] obtain rp' chk outcome
      where "r = result_of rp' chk outcome" by blast
    then show "(passed r \<longrightarrow> error r = None \<and> CheckResult.requires r = None)
           \<and> (\<not> passed r \<longrightarrow> CheckResult.requires r = FileCheck.requires (check r))"
      by (rule one)
  qed
  from single every show ?thesis by (rule conjI)
qed

theorem requires_carried_iff_failed_witness:
  "passed (fst (checkRepository (widgets_world []) [] ''acme/widgets'' [license_check, gpl_check]) ! 0)
 \<and> error (fst (checkRepository (widgets_world []) [] ''acme/widgets'' [license_check, gpl_check]) ! 0)
      = None
 \<and> CheckResult.requires
      (fst (checkRepository (widgets_world []) [] ''acme/widgets'' [license_check, gpl_check]) ! 0)
      = None
 \<and> \<not> passed (fst (checkRepository (widgets_world []) [] ''acme/widgets'' [license_check, gpl_check]) ! 1)
 \<and> CheckResult.requires
      (fst (checkRepository (widgets_world []) [] ''acme/widgets'' [license_check, gpl_check]) ! 1)
      = Some [needs_license]"
proof -
  let ?rs = "fst (checkRepository (widgets_world []) [] ''acme/widgets'' [license_check, gpl_check])"
  have len: "length ?rs = 2" by code_simp
  have m0: "?rs ! 0 \<in> set ?rs" and m1: "?rs ! 1 \<in> set ?rs"
    using len by (simp_all del: checkRepository.simps)
  have p0: "passed (?rs ! 0)" by code_simp
  have p1: "\<not> passed (?rs ! 1)" by code_simp
  have c1: "FileCheck.requires (check (?rs ! 1)) = Some [needs_license]" by code_simp
  note t = requires_carried_iff_failed[of "widgets_world []" "[]" "''acme/widgets''"
             "[license_check, gpl_check]" "[]"]
  note t0 = holds_for_member[OF t[THEN conjunct1] m0]
  note t1 = holds_for_member[OF t[THEN conjunct1] m1]
  from t0 p0 have a: "error (?rs ! 0) = None" and a': "CheckResult.requires (?rs ! 0) = None"
    by (simp_all del: checkRepository.simps)
  from t1 p1 have "CheckResult.requires (?rs ! 1) = FileCheck.requires (check (?rs ! 1))"
    by (simp del: checkRepository.simps)
  with c1 have b: "CheckResult.requires (?rs ! 1) = Some [needs_license]"
    by (simp del: checkRepository.simps)
  from p0 a a' p1 b show ?thesis by (intro conjI)
qed

text \<open>
  Claim C9: \<open>checkRepository\<close> returns one Result for each check that is not excluded, in
  the order of the checks, whatever fails on the way.  When fetching or evaluating a check
  throws \<open>e\<close>, the Result of that check has \<open>passed = False\<close> and the message of \<open>e\<close> as
  its error, and the remaining checks are still run.  A failed fetch and a malformed
  pattern both make \<open>fetch_and_run\<close> throw.
\<close>

theorem failure_never_aborts:
  "map check (fst (checkRepository P log rp chks)) = filter (\<lambda>c. \<not> is_excluded c rp) chks
 \<and> length (fst (checkRepository P log rp chks))
     = length (filter (\<lambda>c. \<not> is_excluded c rp) chks)
 \<and> (\<forall>before chk after e.
       chks = before @ chk # after \<and> \<not> is_excluded chk rp
       \<and> fst (fetch_and_run P (snd (checkRepository P log rp before)) rp chk) = Inl e
       \<longrightarrow> fst (checkRepository P log rp chks) ! length (fst (checkRepository P log rp before))
             = \<lparr>repository = rp, check = chk, filePath = file chk, passed = False,
                error = Some (message_of e), requires = FileCheck.requires chk\<rparr>)
 \<and> (\<forall>l chk e l'.
       fetchFileContent P l rp (file chk) = (Inl e, l')
       \<longrightarrow> fetch_and_run P l rp chk = (Inl e, l'))
 \<and> (\<forall>l chk content l' e.
       fetchFileContent P l rp (file chk) = (Inr content, l')
       \<and> RegExp P (if startsWith (pattern chk) ''!'' then drop 1 (pattern chk)
                     else pattern chk) = Inl e
       \<longrightarrow> fetch_and_run P l rp chk = (Inl e, l'))"
proof (intro conjI allI impI)
  show m: "map check (fst (checkRepository P log rp chks))
             = filter (\<lambda>c. \<not> is_excluded c rp) chks"
    by (rule checkRepository_checks)
  show "length (fst (checkRepository P log rp chks))
          = length (filter (\<lambda>c. \<not> is_excluded c rp) chks)"
    using arg_cong[OF m, of length] by simp
next
  fix before chk after e
  assume h: "chks = before @ chk # after \<and> \<not> is_excluded chk rp
       \<and> fst (fetch_and_run P (snd (checkRepository P log rp before)) rp chk) = Inl e"
  let ?l1 = "snd (checkRepository P log rp before)"
  from h have "fst (checkRepository P log rp chks)
      = fst (checkRepository P log rp before)
          @ result_of rp chk (Inl e)
          # fst (checkRepository P (snd (fetch_and_run P ?l1 rp chk)) rp after)"
    by (simp add: checkRepository_append checkRepository_applicable
          del: checkRepository.simps)
  then show "fst (checkRepository P log rp chks) ! length (fst (checkRepository P log rp before))
             = \<lparr>repository = rp, check = chk, filePath = file chk, passed = False,
                error = Some (message_of e), requires = FileCheck.requires chk\<rparr>"
    by (simp add: result_of_raised)
next
  fix l e l' and chk :: FileCheck
  assume "fetchFileContent P l rp (file chk) = (Inl e, l')"
  then show "fetch_and_run P l rp chk = (Inl e, l')"
    by (simp add: fetch_and_run_def)
next
  fix l content l' e and chk :: FileCheck
  assume "fetchFileContent P l rp (file chk) = (Inr content, l')
       \<and> RegExp P (if startsWith (pattern chk) ''!'' then drop 1 (pattern chk)
                     else pattern chk) = Inl e"
  then show "fetch_and_run P l rp chk = (Inl e, l')"
    by (simp add: fetch_and_run_def runCheck_def Let_def)
qed

theorem failure_never_aborts_witness:
  "five_checks = [license_check, todo_check] @ broken_check # [excluded_check, disabled_check]
 \<and> \<not> is_excluded broken_check ''acme/widgets''
 \<and> fst (fetch_and_run (widgets_world [])
          (snd (checkRepository (widgets_world []) [] ''acme/widgets'' [license_check, todo_check]))
          ''acme/widgets'' broken_check)
      = Inl (ErrorObject ''SyntaxError'' ''Invalid regular expression: /(/: Unterminated group'')
 \<and> map check (fst (checkRepository (widgets_world []) [] ''acme/widgets'' five_checks))
      = [license_check, todo_check, broken_check, disabled_check]
 \<and> length (fst (checkRepository (widgets_world []) [] ''acme/widgets'' five_checks)) = 4
 \<and> fst (checkRepository (widgets_world []) [] ''acme/widgets'' five_checks) ! 2
      = \<lparr>repository = ''acme/widgets'', check = broken_check, filePath = ''LICENSE'',
         passed = False,
         error = Some ''Invalid regular expression: /(/: Unterminated group'',
         requires = None\<rparr>
 \<and> fetchFileContent (widgets_world []) [] ''acme/widgets'' (file copying_check)
      = (Inl (new_Error ''Failed to fetch COPYING: Error: File not found: COPYING''),
         [raw_url ''acme'' ''widgets'' ''main'' ''COPYING'',
          raw_url ''acme'' ''widgets'' ''master'' ''COPYING''])
 \<and> fetch_and_run (widgets_world []) [] ''acme/widgets'' copying_check
      = (Inl (new_Error ''Failed to fetch COPYING: Error: File not found: COPYING''),
         [raw_url ''acme'' ''widgets'' ''main'' ''COPYING'',
          raw_url ''acme'' ''widgets'' ''master'' ''COPYING''])
 \<and> fetchFileContent (widgets_world []) [] ''acme/widgets'' (file broken_check)
      = (Inr ''MIT License'',
         [raw_url ''acme'' ''widgets'' ''main'' ''LICENSE'',
          raw_url ''acme'' ''widgets'' ''master'' ''LICENSE''])
 \<and> RegExp (widgets_world [])
       (if startsWith (pattern broken_check) ''!'' then drop 1 (pattern broken_check)
        else pattern broken_check)
      = Inl unterminated_group
 \<and> fetch_and_run (widgets_world []) [] ''acme/widgets'' broken_check
      = (Inl unterminated_group,
         [raw_url ''acme'' ''widgets'' ''main'' ''LICENSE'',
          raw_url ''acme'' ''widgets'' ''master'' ''LICENSE''])"
proof -
  let ?W = "widgets_world []"
  let ?e = "ErrorObject ''SyntaxError'' ''Invalid regular expression: /(/: Unterminated group''"
  let ?nf = "new_Error ''Failed to fetch COPYING: Error: File not found: COPYING''"
  let ?lc = "[raw_url ''acme'' ''widgets'' ''main'' ''COPYING'',
              raw_url ''acme'' ''widgets'' ''master'' ''COPYING'']"
  let ?ll = "[raw_url ''acme'' ''widgets'' ''main'' ''LICENSE'',
              raw_url ''acme'' ''widgets'' ''master'' ''LICENSE'']"
  have k1: "fetchFileContent ?W [] ''acme/widgets'' (file copying_check) = (Inl ?nf, ?lc)"
    by code_simp
  have k2: "fetchFileContent ?W [] ''acme/widgets'' (file broken_check) = (Inr ''MIT License'', ?ll)"
    by code_simp
  have k3: "RegExp ?W (if startsWith (pattern broken_check) ''!'' then drop 1 (pattern broken_check)
                        else pattern broken_check) = Inl unterminated_group"
    by (simp add: widgets_world_def sample_platform_def sample_RegExp_def broken_check_def
          sample_check_def)
  from k2 k3 have k23: "fetchFileContent ?W [] ''acme/widgets'' (file broken_check)
        = (Inr ''MIT License'', ?ll)
      \<and> RegExp ?W (if startsWith (pattern broken_check) ''!'' then drop 1 (pattern broken_check)
                      else pattern broken_check) = Inl unterminated_group"
    by (rule conjI)
  have h1: "five_checks
              = [license_check, todo_check] @ broken_check # [excluded_check, disabled_check]"
    by (simp add: five_checks_def)
  have h2: "\<not> is_excluded broken_check ''acme/widgets''" by code_simp
  have h3: "fst (fetch_and_run ?W
          (snd (checkRepository ?W [] ''acme/widgets'' [license_check, todo_check]))
          ''acme/widgets'' broken_check) = Inl ?e"
    by code_simp
  have f: "filter (\<lambda>c. \<not> is_excluded c ''acme/widgets'') five_checks
             = [license_check, todo_check, broken_check, disabled_check]"
    by code_simp
  have n: "length (fst (checkRepository ?W [] ''acme/widgets'' [license_check, todo_check])) = 2"
    by code_simp
  have q: "FileCheck.requires broken_check = None" "file broken_check = ''LICENSE''"
    by (simp_all add: broken_check_def sample_check_def)
  note t = failure_never_aborts[of ?W "[]" "''acme/widgets''" five_checks]
  from t f have a: "map check (fst (checkRepository ?W [] ''acme/widgets'' five_checks))
      = [license_check, todo_check, broken_check, disabled_check]"
    by (simp del: checkRepository.simps)
  from t f have b: "length (fst (checkRepository ?W [] ''acme/widgets'' five_checks)) = 4"
    by (simp del: checkRepository.simps)
  from t have "five_checks = [license_check, todo_check] @ broken_check # [excluded_check, disabled_check]
       \<and> \<not> is_excluded broken_check ''acme/widgets''
       \<and> fst (fetch_and_run ?W (snd (checkRepository ?W [] ''acme/widgets'' [license_check, todo_check]))
              ''acme/widgets'' broken_check) = Inl ?e
     \<longrightarrow> fst (checkRepository ?W [] ''acme/widgets'' five_checks)
        ! length (fst (checkRepository ?W [] ''acme/widgets'' [license_check, todo_check]))
      = \<lparr>repository = ''acme/widgets'', check = broken_check, filePath = file broken_check,
         passed = False, error = Some (message_of ?e),
         requires = FileCheck.requires broken_check\<rparr>"
    by (elim conjE allE)
  with h1 h2 h3 have "fst (checkRepository ?W [] ''acme/widgets'' five_checks)
        ! length (fst (checkRepository ?W [] ''acme/widgets'' [license_check, todo_check]))
      = \<lparr>repository = ''acme/widgets'', check = broken_check, filePath = file broken_check,
         passed = False, error = Some (message_of ?e),
         requires = FileCheck.requires broken_check\<rparr>"
    by (elim impE) (intro conjI)
  with n q have c: "fst (checkRepository ?W [] ''acme/widgets'' five_checks) ! 2
      = \<lparr>repository = ''acme/widgets'', check = broken_check, filePath = ''LICENSE'',
         passed = False,
         error = Some ''Invalid regular expression: /(/: Unterminated group'',
         requires = None\<rparr>"
    by (simp del: checkRepository.simps)
  from t have "\<forall>l chk e l'. fetchFileContent ?W l ''acme/widgets'' (file chk) = (Inl e, l')
       \<longrightarrow> fetch_and_run ?W l ''acme/widgets'' chk = (Inl e, l')"
    by (elim conjE)
  then have "fetchFileContent ?W [] ''acme/widgets'' (file copying_check) = (Inl ?nf, ?lc)
       \<longrightarrow> fetch_and_run ?W [] ''acme/widgets'' copying_check = (Inl ?nf, ?lc)"
    by (elim allE)
  from this k1 have d: "fetch_and_run ?W [] ''acme/widgets'' copying_check = (Inl ?nf, ?lc)"
    by (rule mp)
  from t have "\<forall>l chk content l' e.
       fetchFileContent ?W l ''acme/widgets'' (file chk) = (Inr content, l')
       \<and> RegExp ?W (if startsWith (pattern chk) ''!'' then drop 1 (pattern chk)
                      else pattern chk) = Inl e
       \<longrightarrow> fetch_and_run ?W l ''acme/widgets'' chk = (Inl e, l')"
    by (elim conjE)
  then have "fetchFileContent ?W [] ''acme/widgets'' (file broken_check) = (Inr ''MIT License'', ?ll)
       \<and> RegExp ?W (if startsWith (pattern broken_check) ''!'' then drop 1 (pattern broken_check)
                      else pattern broken_check) = Inl unterminated_group
       \<longrightarrow> fetch_and_run ?W [] ''acme/widgets'' broken_check = (Inl unterminated_group, ?ll)"
    by (elim allE)
  from this k23
  have f: "fetch_and_run ?W [] ''acme/widgets'' broken_check = (Inl unterminated_group, ?ll)"
    by (rule mp)
  from h1 h2 h3 a b c k1 d k2 k3 f show ?thesis by (intro conjI)
qed

section \<open>Properties of the result processing helpers\<close>

lemma find_first:
  "find Q xs = Some x \<longleftrightarrow>
     (\<exists>before after. xs = before @ x # after \<and> Q x \<and> (\<forall>y \<in> set before. \<not> Q y))"
proof (induction xs)
  case Nil
  show ?case by simp
next
  case (Cons a xs)
  show ?case
  proof (cases "Q a")
    case True
    have "(\<exists>before after. a # xs = before @ x # after \<and> Q x \<and> (\<forall>y \<in> set before. \<not> Q y))
            \<longleftrightarrow> x = a"
    proof
      assume "\<exists>before after. a # xs = before @ x # after \<and> Q x \<and> (\<forall>y \<in> set before. \<not> Q y)"
      then obtain before after
        where e: "a # xs = before @ x # after" and n: "\<forall>y \<in> set before. \<not> Q y" by blast
      show "x = a"
      proof (cases before)
        case Nil
        with e show ?thesis by simp
      next
        case (Cons b bs)
        with e have "b = a" by simp
        with Cons n True show ?thesis by simp
      qed
    next
      assume "x = a"
      with True have "a # xs = [] @ x # xs \<and> Q x \<and> (\<forall>y \<in> set []. \<not> Q y)" by simp
      then show "\<exists>before after. a # xs = before @ x # after \<and> Q x \<and> (\<forall>y \<in> set before. \<not> Q y)"
        by blast
    qed
    moreover from True have "(find Q (a # xs) = Some x) = (x = a)" by auto
    ultimately show ?thesis by (simp only:)
  next
    case False
    have "(\<exists>before after. a # xs = before @ x # after \<and> Q x \<and> (\<forall>y \<in> set before. \<not> Q y))
            \<longleftrightarrow> (\<exists>before after. xs = before @ x # after \<and> Q x \<and> (\<forall>y \<in> set before. \<not> Q y))"
    proof
      assume "\<exists>before after. a # xs = before @ x # after \<and> Q x \<and> (\<forall>y \<in> set before. \<not> Q y)"
      then obtain before after
        where e: "a # xs = before @ x # after" and q: "Q x" and n: "\<forall>y \<in> set before. \<not> Q y"
        by blast
      show "\<exists>before after. xs = before @ x # after \<and> Q x \<and> (\<forall>y \<in> set before. \<not> Q y)"
      proof (cases before)
        case Nil
        with e q False show ?thesis by simp
      next
        case (Cons b bs)
        with e n q have "xs = bs @ x # after \<and> Q x \<and> (\<forall>y \<in> set bs. \<not> Q y)" by simp
        then show ?thesis by blast
      qed
    next
      assume "\<exists>before after. xs = before @ x # after \<and> Q x \<and> (\<forall>y \<in> set before. \<not> Q y)"
      then obtain before after
        where "xs = before @ x # after" and "Q x" and "\<forall>y \<in> set before. \<not> Q y" by blast
      with False have "a # xs = (a # before) @ x # after \<and> Q x \<and> (\<forall>y \<in> set (a # before). \<not> Q y)"
        by simp
      then show "\<exists>before after. a # xs = before @ x # after \<and> Q x \<and> (\<forall>y \<in> set before. \<not> Q y)"
        by blast
    qed
    moreover from False have "find Q (a # xs) = find Q xs" by simp
    ultimately show ?thesis using Cons.IH by (simp only:)
  qed
qed

lemma find_unique_key:
  "distinct (map key xs) \<Longrightarrow> x \<in> set xs \<Longrightarrow> Q x
     \<Longrightarrow> \<forall>y \<in> set xs. Q y \<longrightarrow> key y = key x \<Longrightarrow> find Q xs = Some x"
proof (induction xs)
  case Nil
  then show ?case by simp
next
  case (Cons a xs)
  show ?case
  proof (cases "Q a")
    case True
    with Cons.prems(4) have k: "key a = key x" by simp
    have "x = a"
    proof (rule ccontr)
      assume "x \<noteq> a"
      with Cons.prems(2) have "x \<in> set xs" by simp
      then have "key x \<in> key ` set xs" by (rule imageI)
      with k Cons.prems(1) show False by simp
    qed
    with True show ?thesis by simp
  next
    case False
    with Cons.prems(2,3) have m: "x \<in> set xs" by auto
    from Cons.prems(1) have d: "distinct (map key xs)" by simp
    from Cons.prems(4) have u: "\<forall>y \<in> set xs. Q y \<longrightarrow> key y = key x" by simp
    from Cons.IH[OF d m Cons.prems(3) u] False show ?thesis by simp
  qed
qed

lemma getFailedRequires_filter:
  "getFailedRequires fl rs =
     filter (\<lambda>req. case find (answers req fl) rs of None \<Rightarrow> False | Some r \<Rightarrow> \<not> passed r)
       (declared_requires fl)"
proof -
  have a: "answers req fl
             = (\<lambda>r. name (check r) = RequiresEntry.check req \<and> repository r = repository fl)"
    for req
    by (rule ext) (simp add: answers_def)
  show ?thesis
  proof (cases "CheckResult.requires fl")
    case None
    then show ?thesis by (simp add: getFailedRequires_def declared_requires_def)
  next
    case (Some reqs)
    then show ?thesis
      by (cases reqs) (simp_all add: getFailedRequires_def declared_requires_def a)
  qed
qed

lemma checkRepository_outcomes:
  "r \<in> set (fst (checkRepository P log rp chks)) \<Longrightarrow>
     \<exists>chk l. chk \<in> set chks \<and> \<not> is_excluded chk rp
        \<and> r = result_of rp chk (fst (fetch_and_run P l rp chk))"
proof (induction chks arbitrary: log)
  case Nil
  then show ?case by simp
next
  case (Cons a chks)
  show ?case
  proof (cases "is_excluded a rp")
    case True
    with Cons.prems have "r \<in> set (fst (checkRepository P log rp chks))" by simp
    from Cons.IH[OF this] show ?thesis by auto
  next
    case False
    let ?l1 = "snd (fetch_and_run P log rp a)"
    from Cons.prems False
    have "r = result_of rp a (fst (fetch_and_run P log rp a))
            \<or> r \<in> set (fst (checkRepository P ?l1 rp chks))"
      by (simp add: checkRepository_applicable del: checkRepository.simps)
    then show ?thesis
    proof
      assume "r = result_of rp a (fst (fetch_and_run P log rp a))"
      with False show ?thesis by auto
    next
      assume "r \<in> set (fst (checkRepository P ?l1 rp chks))"
      from Cons.IH[OF this] show ?thesis by auto
    qed
  qed
qed

lemma fetch_main_then_master_message:
  "fetch_main_then_master P l owner nm path = (Inl e, l') \<Longrightarrow> message_of e \<noteq> []"
  by (auto simp: fetch_main_then_master_def Let_def failed_to_fetch_def new_Error_def
        split: sum.splits if_splits)

lemma fetchFileContent_message:
  "fetchFileContent P l rp path = (Inl e, l') \<Longrightarrow> message_of e \<noteq> []"
  by (auto simp: fetchFileContent_def Let_def invalid_repository_format_def new_Error_def
        split: option.splits if_splits dest: fetch_main_then_master_message)

lemma fetch_and_run_message:
  assumes "\<forall>p e. RegExp P p = Inl e \<longrightarrow> message_of e \<noteq> []"
    and "fst (fetch_and_run P l rp chk) = Inl e"
  shows "message_of e \<noteq> []"
proof (cases "fetchFileContent P l rp (file chk)")
  case (Pair res l')
  show ?thesis
  proof (cases res)
    case (Inl e')
    with Pair assms(2) have "e' = e" by (simp add: fetch_and_run_def)
    with Pair Inl show ?thesis using fetchFileContent_message by blast
  next
    case (Inr content)
    with Pair assms(2) have "runCheck P content chk = Inl e" by (simp add: fetch_and_run_def)
    then obtain p where "RegExp P p = Inl e"
      by (auto simp: runCheck_def Let_def split: sum.splits)
    with assms(1) show ?thesis by blast
  qed
qed

lemma checkRepository_error_nonempty:
  assumes "\<forall>p e. RegExp P p = Inl e \<longrightarrow> message_of e \<noteq> []"
    and "r \<in> set (fst (checkRepository P log rp chks))"
  shows "error r \<noteq> Some []"
proof -
  from checkRepository_outcomes[OF assms(2)] obtain chk l
    where r: "r = result_of rp chk (fst (fetch_and_run P l rp chk))" by blast
  show ?thesis
  proof (cases "fst (fetch_and_run P l rp chk)")
    case (Inl e)
    from fetch_and_run_message[OF assms(1) Inl] r Inl show ?thesis
      by (simp add: result_of_def)
  next
    case (Inr b)
    with r show ?thesis by (simp add: result_of_def)
  qed
qed

lemma startsWith_append: "startsWith (t @ b) t"
  by (induction t) simp_all

lemma startsWith_includes: "startsWith s t \<Longrightarrow> includes s t"
  by (cases s; cases t) simp_all

lemma includes_after: "includes s t \<Longrightarrow> includes (a @ s) t"
  by (induction a) simp_all

lemma includes_infix: "includes (a @ t @ b) t"
  by (intro includes_after startsWith_includes startsWith_append)

lemma escape_pipes_none: "CHR ''|'' \<notin> set s \<Longrightarrow> escape_pipes s = s"
  by (induction s) (auto simp: escape_pipes_def)

lemma fetchFileContent_absent:
  assumes "js_split CHR ''/'' rp = [owner, nm]" and "owner \<noteq> []" and "nm \<noteq> []"
    and "fetch P log (raw_url owner nm ''main'' path) = Inr first" and "\<not> ok first"
    and "fetch P (log @ [raw_url owner nm ''main'' path]) (raw_url owner nm ''master'' path)
           = Inr second" and "\<not> ok second"
  shows "fst (fetchFileContent P log rp path)
           = Inl (new_Error (''Failed to fetch '' @ path @ '': Error: File not found: '' @ path))"
  using assms
  by (simp add: fetchFileContent_def fetch_main_then_master_def Let_def failed_to_fetch_def
        new_Error_def)

section \<open>The claims about the dependency resolver and the failure status\<close>

text \<open>
  Claim C3, as stated: the resolved list holds exactly the declared entries for which some
  Result of the set, for the same repository and the named check, did not pass.
  \<open>getFailedRequires\<close> looks only at the first Result that \<open>find\<close> returns.  In the run
  below two checks are both named \<open>has-license\<close>; the first passes, the second fails, and the
  failing check that requires \<open>has-license\<close> gets an empty list although a failed Result
  for that name and repository is in the set.
\<close>

theorem failed_requires_misses_later_failure:
  "length duplicate_name_results = 3
 \<and> \<not> passed (duplicate_name_results ! 2)
 \<and> CheckResult.requires (duplicate_name_results ! 2) = Some [needs_license]
 \<and> name (check (duplicate_name_results ! 1)) = RequiresEntry.check needs_license
 \<and> repository (duplicate_name_results ! 1) = repository (duplicate_name_results ! 2)
 \<and> passed (duplicate_name_results ! 1) = False
 \<and> getFailedRequires (duplicate_name_results ! 2) duplicate_name_results = []"
  by code_simp

text \<open>
  Claim C3, amended: the resolved list holds, in declared order, exactly the declared
  entries for which the first Result of the set for the same repository and the named
  check did not pass; an entry that no Result answers is left out.  When no two Results
  of the set agree in both repository and check name, this is the claim as stated.
\<close>

theorem failed_requires_first_match:
  "getFailedRequires fl rs =
     filter (\<lambda>req. \<exists>before r after.
                rs = before @ r # after \<and> (\<forall>x \<in> set before. \<not> answers req fl x)
                \<and> answers req fl r \<and> \<not> passed r)
       (declared_requires fl)
 \<and> (distinct (map (\<lambda>r. (repository r, name (check r))) rs) \<longrightarrow>
      getFailedRequires fl rs =
        filter (\<lambda>req. \<exists>r \<in> set rs. name (check r) = RequiresEntry.check req
                          \<and> repository r = repository fl \<and> \<not> passed r)
          (declared_requires fl))"
proof (intro conjI impI)
  have "(case find (answers req fl) rs of None \<Rightarrow> False | Some r \<Rightarrow> \<not> passed r)
          \<longleftrightarrow> (\<exists>before r after.
                rs = before @ r # after \<and> (\<forall>x \<in> set before. \<not> answers req fl x)
                \<and> answers req fl r \<and> \<not> passed r)" for req
  proof (cases "find (answers req fl) rs")
    case None
    then have "\<forall>x \<in> set rs. \<not> answers req fl x" by (simp add: find_None_iff)
    with None show ?thesis by auto
  next
    case (Some r)
    show ?thesis
    proof
      assume "case find (answers req fl) rs of None \<Rightarrow> False | Some r \<Rightarrow> \<not> passed r"
      with Some have np: "\<not> passed r" by simp
      from Some obtain before after
        where "rs = before @ r # after" "answers req fl r" "\<forall>y \<in> set before. \<not> answers req fl y"
        unfolding find_first by blast
      with np show "\<exists>before r after.
                rs = before @ r # after \<and> (\<forall>x \<in> set before. \<not> answers req fl x)
                \<and> answers req fl r \<and> \<not> passed r" by blast
    next
      assume "\<exists>before r after.
                rs = before @ r # after \<and> (\<forall>x \<in> set before. \<not> answers req fl x)
                \<and> answers req fl r \<and> \<not> passed r"
      then obtain before r' after where
        d: "rs = before @ r' # after" "\<forall>x \<in> set before. \<not> answers req fl x"
           "answers req fl r'" and np: "\<not> passed r'" by blast
      then have "find (answers req fl) rs = Some r'" unfolding find_first by blast
      with np show "case find (answers req fl) rs of None \<Rightarrow> False | Some r \<Rightarrow> \<not> passed r"
        by simp
    qed
  qed
  then show "getFailedRequires fl rs =
     filter (\<lambda>req. \<exists>before r after.
                rs = before @ r # after \<and> (\<forall>x \<in> set before. \<not> answers req fl x)
                \<and> answers req fl r \<and> \<not> passed r)
       (declared_requires fl)"
    unfolding getFailedRequires_filter by (intro filter_cong refl)
next
  assume dist: "distinct (map (\<lambda>r. (repository r, name (check r))) rs)"
  have "(case find (answers req fl) rs of None \<Rightarrow> False | Some r \<Rightarrow> \<not> passed r)
          \<longleftrightarrow> (\<exists>r \<in> set rs. name (check r) = RequiresEntry.check req
                          \<and> repository r = repository fl \<and> \<not> passed r)" for req
  proof
    assume a: "case find (answers req fl) rs of None \<Rightarrow> False | Some r \<Rightarrow> \<not> passed r"
    then obtain r where f: "find (answers req fl) rs = Some r" and np: "\<not> passed r"
      by (cases "find (answers req fl) rs") auto
    from f have "r \<in> set rs \<and> answers req fl r" unfolding find_first by auto
    with np show "\<exists>r \<in> set rs. name (check r) = RequiresEntry.check req
                          \<and> repository r = repository fl \<and> \<not> passed r"
      by (auto simp: answers_def)
  next
    assume "\<exists>r \<in> set rs. name (check r) = RequiresEntry.check req
                          \<and> repository r = repository fl \<and> \<not> passed r"
    then obtain r where r: "r \<in> set rs" "answers req fl r" and np: "\<not> passed r"
      by (auto simp: answers_def)
    from r(2) have "\<forall>y \<in> set rs. answers req fl y
        \<longrightarrow> (repository y, name (check y)) = (repository r, name (check r))"
      by (simp add: answers_def)
    with dist r have "find (answers req fl) rs = Some r"
      by (rule find_unique_key)
    with np show "case find (answers req fl) rs of None \<Rightarrow> False | Some r \<Rightarrow> \<not> passed r"
      by simp
  qed
  then show "getFailedRequires fl rs =
        filter (\<lambda>req. \<exists>r \<in> set rs. name (check r) = RequiresEntry.check req
                          \<and> repository r = repository fl \<and> \<not> passed r)
          (declared_requires fl)"
    unfolding getFailedRequires_filter by (intro filter_cong refl)
qed

theorem failed_requires_first_match_witness:
  "distinct (map (\<lambda>r. (repository r, name (check r))) widgets_results)
 \<and> declared_requires (widgets_results ! 3)
      = [needs_readme, needs_no_todo, needs_contributing, needs_license]
 \<and> getFailedRequires (widgets_results ! 3) widgets_results = [needs_no_todo]"
proof -
  have d: "distinct (map (\<lambda>r. (repository r, name (check r))) widgets_results)"
    by code_simp
  have q: "declared_requires (widgets_results ! 3)
      = [needs_readme, needs_no_todo, needs_contributing, needs_license]"
    by code_simp
  have f: "filter (\<lambda>req. \<exists>r \<in> set widgets_results. name (check r) = RequiresEntry.check req
                          \<and> repository r = repository (widgets_results ! 3) \<and> \<not> passed r)
          (declared_requires (widgets_results ! 3)) = [needs_no_todo]"
    by code_simp
  note t = failed_requires_first_match[of "widgets_results ! 3" widgets_results]
  from t[THEN conjunct2, THEN mp, OF d] f
  have "getFailedRequires (widgets_results ! 3) widgets_results = [needs_no_todo]"
    by (rule trans)
  with d q show ?thesis by (intro conjI)
qed

text \<open>
  Claim C8, as stated: an error is classified "not found" when the target file was absent,
  and an error set for any other reason gives a status that carries the error text.
  \<open>getFailureStatus\<close> does not know the reason; it looks for the words
  \<open>File not found\<close> in the error text.  In the run below the file is present and the
  pattern is rejected as a regular expression; the message quotes the pattern, the pattern
  contains the words, and the status is "File not found" instead of the message.
\<close>

theorem syntax_error_classified_as_not_found:
  "fst (fetchFileContent quoting_world [] ''acme/widgets'' (file quoting_check))
     = Inr ''MIT License''
 \<and> fst (checkRepository quoting_world [] ''acme/widgets'' [quoting_check])
     = [\<lparr>repository = ''acme/widgets'', check = quoting_check, filePath = ''LICENSE'',
         passed = False,
         error = Some ''Invalid regular expression: /(File not found/: Unterminated group'',
         requires = None\<rparr>]
 \<and> map getFailureStatus (fst (checkRepository quoting_world [] ''acme/widgets'' [quoting_check]))
     = [\<lparr>emoji = Shrug, message = ''File not found''\<rparr>]
 \<and> map getFailureStatus (fst (checkRepository quoting_world [] ''acme/widgets'' [quoting_check]))
     \<noteq> [\<lparr>emoji = CrossMark,
          message = ''Invalid regular expression: /(File not found/: Unterminated group''\<rparr>]"
  by code_simp

text \<open>
  Claim C8, amended: the status of a failure is decided by the error text alone.  An error
  (set, that is a non-empty text) that contains the words \<open>File not found\<close> gives the
  status "File not found", whatever raised it; an error that does not contain them gives
  its own text; without an error the status names the pattern, every vertical bar preceded
  by a backslash.  A file that both branches answer with a response that is not \<open>ok\<close>
  yields a Result whose error contains the words, so its status is "File not found".  The
  error of a Result of \<open>checkRepository\<close> is never the empty text, as long as the
  messages of the regular-expression engine are not empty, so the three cases cover every
  Result of a run.
\<close>

theorem failure_status_cases:
  "(error fl = Some e \<and> e \<noteq> [] \<and> includes e ''File not found''
      \<longrightarrow> getFailureStatus fl = \<lparr>emoji = Shrug, message = ''File not found''\<rparr>)
 \<and> (error fl = Some e \<and> e \<noteq> [] \<and> \<not> includes e ''File not found''
      \<longrightarrow> getFailureStatus fl = \<lparr>emoji = CrossMark, message = e\<rparr>)
 \<and> (error fl = None \<or> error fl = Some []
      \<longrightarrow> getFailureStatus fl
            = \<lparr>emoji = MagnifyingGlass,
               message = ''Pattern '' @ [CHR 0x60] @ escape_pipes (pattern (check fl))
                           @ [CHR 0x60] @ '' not found''\<rparr>)
 \<and> escape_pipes (a @ ''|'' @ b) = escape_pipes a @ [CHR 0x5C, CHR ''|''] @ escape_pipes b
 \<and> (CHR ''|'' \<notin> set a \<longrightarrow> escape_pipes a = a)
 \<and> (js_split CHR ''/'' rp = [owner, nm] \<and> owner \<noteq> [] \<and> nm \<noteq> [] \<and> \<not> is_excluded chk rp
      \<and> fetch P log (raw_url owner nm ''main'' (file chk)) = Inr first \<and> \<not> ok first
      \<and> fetch P (log @ [raw_url owner nm ''main'' (file chk)])
           (raw_url owner nm ''master'' (file chk)) = Inr second \<and> \<not> ok second
      \<longrightarrow> (\<exists>r. fst (checkRepository P log rp [chk]) = [r] \<and> \<not> passed r
               \<and> error r = Some (''Failed to fetch '' @ file chk
                                   @ '': Error: File not found: '' @ file chk)
               \<and> getFailureStatus r = \<lparr>emoji = Shrug, message = ''File not found''\<rparr>))
 \<and> ((\<forall>p x. RegExp P p = Inl x \<longrightarrow> message_of x \<noteq> [])
      \<and> produced \<in> set (fst (checkRepository P log rp chks))
      \<longrightarrow> error produced \<noteq> Some [])"
proof (intro conjI impI)
  assume "(\<forall>p x. RegExp P p = Inl x \<longrightarrow> message_of x \<noteq> [])
      \<and> produced \<in> set (fst (checkRepository P log rp chks))"
  then show "error produced \<noteq> Some []"
    using checkRepository_error_nonempty[of P produced log rp chks] by blast
next
  assume "error fl = Some e \<and> e \<noteq> [] \<and> includes e ''File not found''"
  then show "getFailureStatus fl = \<lparr>emoji = Shrug, message = ''File not found''\<rparr>"
    by (simp add: getFailureStatus_def)
next
  assume "error fl = Some e \<and> e \<noteq> [] \<and> \<not> includes e ''File not found''"
  then show "getFailureStatus fl = \<lparr>emoji = CrossMark, message = e\<rparr>"
    by (simp add: getFailureStatus_def)
next
  assume "error fl = None \<or> error fl = Some []"
  then have "\<not> truthy (error fl)" by auto
  then show "getFailureStatus fl
            = \<lparr>emoji = MagnifyingGlass,
               message = ''Pattern '' @ [CHR 0x60] @ escape_pipes (pattern (check fl))
                           @ [CHR 0x60] @ '' not found''\<rparr>"
    by (simp add: getFailureStatus_def pattern_not_found_def)
next
  show "escape_pipes (a @ ''|'' @ b) = escape_pipes a @ [CHR 0x5C, CHR ''|''] @ escape_pipes b"
    by (simp add: escape_pipes_def)
next
  assume "CHR ''|'' \<notin> set a"
  then show "escape_pipes a = a" by (rule escape_pipes_none)
next
  assume h: "js_split CHR ''/'' rp = [owner, nm] \<and> owner \<noteq> [] \<and> nm \<noteq> [] \<and> \<not> is_excluded chk rp
      \<and> fetch P log (raw_url owner nm ''main'' (file chk)) = Inr first \<and> \<not> ok first
      \<and> fetch P (log @ [raw_url owner nm ''main'' (file chk)])
           (raw_url owner nm ''master'' (file chk)) = Inr second \<and> \<not> ok second"
  let ?msg = "''Failed to fetch '' @ file chk @ '': Error: File not found: '' @ file chk"
  from h have "fst (fetchFileContent P log rp (file chk)) = Inl (new_Error ?msg)"
    by (intro fetchFileContent_absent[of rp owner nm P log "file chk" first second]) simp_all
  then have "fst (fetch_and_run P log rp chk) = Inl (new_Error ?msg)"
    by (cases "fetchFileContent P log rp (file chk)") (simp add: fetch_and_run_def)
  with h have r: "fst (checkRepository P log rp [chk]) = [result_of rp chk (Inl (new_Error ?msg))]"
    by (simp add: checkRepository_applicable del: checkRepository.simps(2))
  have e: "error (result_of rp chk (Inl (new_Error ?msg))) = Some ?msg"
    by (simp add: result_of_def new_Error_def)
  have "includes (''Failed to fetch '' @ file chk @ '': Error: '' @ ''File not found''
                    @ '': '' @ file chk) ''File not found''"
    using includes_infix[of "''Failed to fetch '' @ file chk @ '': Error: ''" "''File not found''"
            "'': '' @ file chk"]
    by simp
  then have i: "includes ?msg ''File not found''" by simp
  have "getFailureStatus (result_of rp chk (Inl (new_Error ?msg)))
          = \<lparr>emoji = Shrug, message = ''File not found''\<rparr>"
    using e i by (simp add: getFailureStatus_def del: includes.simps)
  with r e show "\<exists>r. fst (checkRepository P log rp [chk]) = [r] \<and> \<not> passed r
               \<and> error r = Some ?msg
               \<and> getFailureStatus r = \<lparr>emoji = Shrug, message = ''File not found''\<rparr>"
    by (simp add: result_of_def)
qed

theorem failure_status_cases_witness:
  "error (duplicate_name_results ! 1)
     = Some ''Failed to fetch COPYING: Error: File not found: COPYING''
 \<and> getFailureStatus (duplicate_name_results ! 1) = \<lparr>emoji = Shrug, message = ''File not found''\<rparr>
 \<and> error (five_results ! 2) = Some ''Invalid regular expression: /(/: Unterminated group''
 \<and> getFailureStatus (five_results ! 2)
     = \<lparr>emoji = CrossMark, message = ''Invalid regular expression: /(/: Unterminated group''\<rparr>
 \<and> error (result_of ''acme/widgets'' pipe_check (Inr False)) = None
 \<and> getFailureStatus (result_of ''acme/widgets'' pipe_check (Inr False))
     = \<lparr>emoji = MagnifyingGlass,
        message = ''Pattern '' @ [CHR 0x60] @ ''GPL'' @ [CHR 0x5C] @ ''|BSD'' @ [CHR 0x60]
                    @ '' not found''\<rparr>
 \<and> js_split CHR ''/'' ''acme/empty'' = [''acme'', ''empty'']
 \<and> is_excluded license_check ''acme/empty'' = False
 \<and> fetch (widgets_world []) [] (raw_url ''acme'' ''empty'' ''main'' ''LICENSE'')
     = Inr not_found_Response
 \<and> fetch (widgets_world []) [raw_url ''acme'' ''empty'' ''main'' ''LICENSE'']
       (raw_url ''acme'' ''empty'' ''master'' ''LICENSE'')
     = Inr not_found_Response
 \<and> ok not_found_Response = False
 \<and> map getFailureStatus (fst (checkRepository (widgets_world []) [] ''acme/empty'' [license_check]))
     = [\<lparr>emoji = Shrug, message = ''File not found''\<rparr>]
 \<and> CHR ''|'' \<notin> set ''GPL''
 \<and> escape_pipes ''GPL'' = ''GPL''
 \<and> five_results ! 2 \<in> set (fst (checkRepository (widgets_world []) [] ''acme/widgets'' five_checks))
 \<and> error (five_results ! 2) \<noteq> Some []"
proof -
  let ?W = "widgets_world []"
  let ?m = "''Failed to fetch COPYING: Error: File not found: COPYING''"
  let ?s = "''Invalid regular expression: /(/: Unterminated group''"
  let ?p = "result_of ''acme/widgets'' pipe_check (Inr False)"
  have e1: "error (duplicate_name_results ! 1) = Some ?m" by code_simp
  have i1: "includes ?m ''File not found''" by code_simp
  from e1 i1 have h1: "error (duplicate_name_results ! 1) = Some ?m \<and> ?m \<noteq> []
      \<and> includes ?m ''File not found''"
    by (intro conjI) simp_all
  note c1 = failure_status_cases[of "duplicate_name_results ! 1" ?m, THEN conjunct1, THEN mp, OF h1]
  have e2: "error (five_results ! 2) = Some ?s" by code_simp
  have i2: "\<not> includes ?s ''File not found''" by code_simp
  from e2 i2 have h2: "error (five_results ! 2) = Some ?s \<and> ?s \<noteq> []
      \<and> \<not> includes ?s ''File not found''"
    by (intro conjI) simp_all
  note c2 = failure_status_cases[of "five_results ! 2" ?s, THEN conjunct2, THEN conjunct1,
              THEN mp, OF h2]
  have e3: "error ?p = None" by (simp add: result_of_def)
  then have h3: "error ?p = None \<or> error ?p = Some []" by (rule disjI1)
  have x3: "escape_pipes (pattern (check ?p)) = ''GPL'' @ [CHR 0x5C] @ ''|BSD''" by code_simp
  from failure_status_cases[of ?p, THEN conjunct2, THEN conjunct2, THEN conjunct1, THEN mp, OF h3]
  have c3: "getFailureStatus ?p
     = \<lparr>emoji = MagnifyingGlass,
        message = ''Pattern '' @ [CHR 0x60] @ ''GPL'' @ [CHR 0x5C] @ ''|BSD'' @ [CHR 0x60]
                    @ '' not found''\<rparr>"
    by (simp only: x3 append_assoc)
  have s4: "js_split CHR ''/'' ''acme/empty'' = [''acme'', ''empty'']" by code_simp
  have x4: "is_excluded license_check ''acme/empty'' = False" by code_simp
  have f4: "fetch ?W [] (raw_url ''acme'' ''empty'' ''main'' ''LICENSE'') = Inr not_found_Response"
    by code_simp
  have g4: "fetch ?W [raw_url ''acme'' ''empty'' ''main'' ''LICENSE'']
       (raw_url ''acme'' ''empty'' ''master'' ''LICENSE'') = Inr not_found_Response"
    by code_simp
  have o4: "ok not_found_Response = False" by (simp add: not_found_Response_def)
  have l4: "file license_check = ''LICENSE''" by (simp add: license_check_def sample_check_def)
  from s4 x4 f4 g4 o4 l4
  have h4: "js_split CHR ''/'' ''acme/empty'' = [''acme'', ''empty''] \<and> ''acme'' \<noteq> []
      \<and> ''empty'' \<noteq> [] \<and> \<not> is_excluded license_check ''acme/empty''
      \<and> fetch ?W [] (raw_url ''acme'' ''empty'' ''main'' (file license_check))
           = Inr not_found_Response \<and> \<not> ok not_found_Response
      \<and> fetch ?W ([] @ [raw_url ''acme'' ''empty'' ''main'' (file license_check)])
           (raw_url ''acme'' ''empty'' ''master'' (file license_check)) = Inr not_found_Response
      \<and> \<not> ok not_found_Response"
    by simp
  from failure_status_cases[of _ _ _ _ "''acme/empty''" "''acme''" "''empty''" license_check
         ?W "[]" not_found_Response not_found_Response,
         THEN conjunct2, THEN conjunct2, THEN conjunct2, THEN conjunct2, THEN conjunct2,
         THEN conjunct1, THEN mp, OF h4]
  obtain r where "fst (checkRepository ?W [] ''acme/empty'' [license_check]) = [r]"
    and "getFailureStatus r = \<lparr>emoji = Shrug, message = ''File not found''\<rparr>"
    by blast
  then have c4: "map getFailureStatus (fst (checkRepository ?W [] ''acme/empty'' [license_check]))
     = [\<lparr>emoji = Shrug, message = ''File not found''\<rparr>]"
    by (simp del: checkRepository.simps)
  have h5: "CHR ''|'' \<notin> set ''GPL''" by simp
  note c5 = failure_status_cases[of _ _ "''GPL''", THEN conjunct2, THEN conjunct2, THEN conjunct2,
              THEN conjunct2, THEN conjunct1, THEN mp, OF h5]
  have q6: "\<forall>p x. RegExp ?W p = Inl x \<longrightarrow> message_of x \<noteq> []"
    by (auto simp: widgets_world_def sample_platform_def sample_RegExp_def unterminated_group_def
          split: if_splits)
  have n6: "length five_results = 4" by code_simp
  then have "five_results ! 2 \<in> set five_results" by simp
  then have m6: "five_results ! 2
      \<in> set (fst (checkRepository ?W [] ''acme/widgets'' five_checks))"
    by (simp only: five_results_def)
  from q6 m6 have h6: "(\<forall>p x. RegExp ?W p = Inl x \<longrightarrow> message_of x \<noteq> [])
      \<and> five_results ! 2 \<in> set (fst (checkRepository ?W [] ''acme/widgets'' five_checks))"
    by (rule conjI)
  note c6 = failure_status_cases[of _ _ _ _ "''acme/widgets''" _ _ _ ?W "[]" _ _
              "five_results ! 2" five_checks,
              THEN conjunct2, THEN conjunct2, THEN conjunct2, THEN conjunct2, THEN conjunct2,
              THEN conjunct2, THEN mp, OF h6]
  from e1 c1 e2 c2 e3 c3 s4 x4 f4 g4 o4 c4 h5 c5 m6 c6 show ?thesis by (intro conjI)
qed

text \<open>
  Claim C10: the resolved list is a subsequence of the declared list of prerequisites:
  of the list the Result carries and, for a failed Result of a run, of the list its check
  declares.  Entries are kept whole, in order, and none is added.
\<close>

theorem failed_requires_subseq:
  "subseq (getFailedRequires fl rs) (declared_requires fl)
 \<and> (fl \<in> set (fst (checkAllRepositories P log repos chks)) \<and> \<not> passed fl
      \<longrightarrow> subseq (getFailedRequires fl rs)
            (case FileCheck.requires (check fl) of None \<Rightarrow> [] | Some reqs \<Rightarrow> reqs))"
proof (intro conjI impI)
  show s: "subseq (getFailedRequires fl rs) (declared_requires fl)"
    unfolding getFailedRequires_filter by (rule subseq_filter_left)
  assume h: "fl \<in> set (fst (checkAllRepositories P log repos chks)) \<and> \<not> passed fl"
  then obtain rp chk outcome where "fl = result_of rp chk outcome"
    using checkAllRepositories_results[of fl P log repos chks] by blast
  with h have "CheckResult.requires fl = FileCheck.requires (check fl)"
    using result_of_failed[of rp chk outcome] by simp
  then have "declared_requires fl
               = (case FileCheck.requires (check fl) of None \<Rightarrow> [] | Some reqs \<Rightarrow> reqs)"
    by (simp add: declared_requires_def)
  with s show "subseq (getFailedRequires fl rs)
            (case FileCheck.requires (check fl) of None \<Rightarrow> [] | Some reqs \<Rightarrow> reqs)"
    by simp
qed

theorem failed_requires_subseq_witness:
  "widgets_results ! 3
     \<in> set (fst (checkAllRepositories (widgets_world []) [] [''acme/widgets'']
                   [license_check, readme_check, todo_check, strict_check]))
 \<and> passed (widgets_results ! 3) = False
 \<and> getFailedRequires (widgets_results ! 3) widgets_results = [needs_no_todo]
 \<and> subseq (getFailedRequires (widgets_results ! 3) widgets_results)
      [needs_readme, needs_no_todo, needs_contributing, needs_license]"
proof -
  have n: "length widgets_results = 4" by code_simp
  then have "widgets_results ! 3 \<in> set widgets_results" by simp
  then have m: "widgets_results ! 3
     \<in> set (fst (checkAllRepositories (widgets_world []) [] [''acme/widgets'']
                   [license_check, readme_check, todo_check, strict_check]))"
    by (simp only: widgets_results_def)
  have p: "\<not> passed (widgets_results ! 3)" by code_simp
  have q: "(case FileCheck.requires (check (widgets_results ! 3)) of
              None \<Rightarrow> [] | Some reqs \<Rightarrow> reqs)
             = [needs_readme, needs_no_todo, needs_contributing, needs_license]"
    by code_simp
  have g: "getFailedRequires (widgets_results ! 3) widgets_results = [needs_no_todo]"
    by code_simp
  from m p have h: "widgets_results ! 3
     \<in> set (fst (checkAllRepositories (widgets_world []) [] [''acme/widgets'']
                   [license_check, readme_check, todo_check, strict_check]))
     \<and> \<not> passed (widgets_results ! 3)"
    by (rule conjI)
  note t = failed_requires_subseq[of "widgets_results ! 3" widgets_results "widgets_world []"
             "[]" "[''acme/widgets'']" "[license_check, readme_check, todo_check, strict_check]"]
  from t[THEN conjunct2, THEN mp, OF h] q
  have s: "subseq (getFailedRequires (widgets_results ! 3) widgets_results)
      [needs_readme, needs_no_todo, needs_contributing, needs_license]"
    by (simp only:)
  from p have p': "passed (widgets_results ! 3) = False" by simp
  from m p' g s show ?thesis by (intro conjI)
qed

section \<open>The claim about the command line\<close>

lemma fetchBazelContribRepositories_log:
  "snd (fetchBazelContribRepositories P log) = log @ [search_url]"
  by (simp add: fetchBazelContribRepositories_def split: sum.splits)

lemma getRepositories_log:
  "snd (getRepositories P log config)
     = (if dynamic_is_enabled config then log @ [search_url] else log)"
proof (cases "dynamic_is_enabled config")
  case True
  obtain res l where f: "fetchBazelContribRepositories P log = (res, l)"
    by (cases "fetchBazelContribRepositories P log")
  with fetchBazelContribRepositories_log[of P log] have "l = log @ [search_url]" by simp
  with True f show ?thesis
    by (cases res) (simp_all add: getRepositories_def Let_def)
next
  case False
  then show ?thesis by (simp add: getRepositories_def Let_def)
qed

text \<open>
  Claim C4, as stated: when the argument names no configured check, the run fails before
  any fetch, the repository-discovery fetch included.  \<open>main\<close> resolves the repositories
  before it looks at the argument, so with dynamic discovery enabled the search request
  has been made by the time the run fails.
\<close>

theorem unknown_check_name_after_discovery_fetch:
  "readConfig discovering_world ''config.json'' = Inr (dynamic_config [license_check])
 \<and> map name (checks (dynamic_config [license_check])) = [''has-license'']
 \<and> exit_code (main discovering_world (Some ''no-such-check'')) = 1
 \<and> requested (main discovering_world (Some ''no-such-check'')) = [search_url]
 \<and> requested (main discovering_world (Some ''no-such-check'')) \<noteq> []"
  by code_simp

text \<open>
  Claim C4, amended: when the argument is a non-empty name that no configured check bears
  and the configuration loads, the run ends with exit code 1 and an error message, writes
  no report and fetches no file content.  The only request it can make is the
  repository-discovery request, made exactly when dynamic discovery is enabled.  When
  the repositories resolve, the message is the one about the unknown check name.
\<close>

theorem unknown_check_name_fails_before_content_fetch:
  assumes "checkName = Some n" and "n \<noteq> []"
    and "readConfig P ''config.json'' = Inr config"
    and "\<forall>chk \<in> set (checks config). name chk \<noteq> n"
  shows "exit_code (main P checkName) = 1
       \<and> stderr (main P checkName) \<noteq> None
       \<and> written (main P checkName) = None
       \<and> requested (main P checkName)
           = (if dynamic_is_enabled config then [search_url] else [])
       \<and> (\<forall>repos log. getRepositories P [] config = (Inr repos, log) \<longrightarrow>
             stderr (main P checkName)
               = Some (''Error: No check found with name '' @ [CHR 0x27] @ n @ [CHR 0x27]))"
proof -
  from assms(3) have lc: "loadConfig P ''config.json'' = Inr config"
    by (simp add: loadConfig_def)
  from assms(4) have none: "filter (\<lambda>chk. Some (name chk) = checkName) (checks config) = []"
    using assms(1) by (auto simp: filter_empty_conv)
  from assms(1,2) have t: "truthy checkName" by simp
  obtain res log where g: "getRepositories P [] config = (res, log)"
    by (cases "getRepositories P [] config")
  with getRepositories_log[of P "[]" config]
  have l: "log = (if dynamic_is_enabled config then [search_url] else [])" by simp
  show ?thesis
  proof (cases res)
    case (Inl e)
    with lc g have "main P checkName = failed_run e log"
      by (simp add: main_def)
    with l g Inl show ?thesis by (simp add: failed_run_def)
  next
    case (Inr repos)
    with lc g t none assms(1)
    have "main P checkName
            = \<lparr>exit_code = 1,
               stderr = Some (''Error: No check found with name '' @ [CHR 0x27] @ n @ [CHR 0x27]),
               requested = log, written = None\<rparr>"
      by (simp add: main_def Let_def)
    with l g Inr show ?thesis by simp
  qed
qed

theorem unknown_check_name_fails_before_content_fetch_witness:
  "readConfig (widgets_world [license_check]) ''config.json'' = Inr (sample_config [license_check])
 \<and> map name (checks (sample_config [license_check])) = [''has-license'']
 \<and> exit_code (main (widgets_world [license_check]) (Some ''no-such-check'')) = 1
 \<and> written (main (widgets_world [license_check]) (Some ''no-such-check'')) = None
 \<and> requested (main (widgets_world [license_check]) (Some ''no-such-check'')) = []
 \<and> stderr (main (widgets_world [license_check]) (Some ''no-such-check''))
      = Some (''Error: No check found with name '' @ [CHR 0x27] @ ''no-such-check'' @ [CHR 0x27])
 \<and> requested (main discovering_world (Some ''no-such-check'')) = [search_url]"
proof -
  let ?W = "widgets_world [license_check]"
  let ?c = "sample_config [license_check]"
  have h1: "Some ''no-such-check'' = Some ''no-such-check''" by (rule refl)
  have h2: "''no-such-check'' \<noteq> []" by simp
  have h3: "readConfig ?W ''config.json'' = Inr ?c"
    by (simp add: widgets_world_def sample_platform_def)
  have n: "map name (checks ?c) = [''has-license'']" by code_simp
  have h4: "\<forall>chk \<in> set (checks ?c). name chk \<noteq> ''no-such-check''"
    by (simp add: sample_config_def license_check_def sample_check_def)
  note t = unknown_check_name_fails_before_content_fetch[OF h1 h2 h3 h4]
  have d: "dynamic_is_enabled ?c = False" by code_simp
  have g: "getRepositories ?W [] ?c = (Inr [''acme/widgets''], [])" by code_simp
  from t have a: "exit_code (main ?W (Some ''no-such-check'')) = 1" by (rule conjunct1)
  from t have b: "written (main ?W (Some ''no-such-check'')) = None"
    by (elim conjE)
  from t have "requested (main ?W (Some ''no-such-check''))
                 = (if dynamic_is_enabled ?c then [search_url] else [])"
    by (elim conjE)
  with d have c: "requested (main ?W (Some ''no-such-check'')) = []" by (simp only: if_False)
  from t have "\<forall>repos log. getRepositories ?W [] ?c = (Inr repos, log) \<longrightarrow>
             stderr (main ?W (Some ''no-such-check''))
               = Some (''Error: No check found with name '' @ [CHR 0x27] @ ''no-such-check''
                         @ [CHR 0x27])"
    by (elim conjE)
  then have "getRepositories ?W [] ?c = (Inr [''acme/widgets''], []) \<longrightarrow>
             stderr (main ?W (Some ''no-such-check''))
               = Some (''Error: No check found with name '' @ [CHR 0x27] @ ''no-such-check''
                         @ [CHR 0x27])"
    by (elim allE)
  from this g have e: "stderr (main ?W (Some ''no-such-check''))
      = Some (''Error: No check found with name '' @ [CHR 0x27] @ ''no-such-check'' @ [CHR 0x27])"
    by (rule mp)
  have k1: "readConfig discovering_world ''config.json'' = Inr (dynamic_config [license_check])"
    by (simp add: discovering_world_def sample_platform_def)
  have k2: "\<forall>chk \<in> set (checks (dynamic_config [license_check])). name chk \<noteq> ''no-such-check''"
    by (simp add: dynamic_config_def license_check_def sample_check_def)
  have k3: "dynamic_is_enabled (dynamic_config [license_check]) = True" by code_simp
  from unknown_check_name_fails_before_content_fetch[OF h1 h2 k1 k2]
  have "requested (main discovering_world (Some ''no-such-check''))
          = (if dynamic_is_enabled (dynamic_config [license_check]) then [search_url] else [])"
    by (elim conjE)
  with k3 have f: "requested (main discovering_world (Some ''no-such-check'')) = [search_url]"
    by (simp only: if_True)
  from h3 n a b c e f show ?thesis by (intro conjI)
qed

section \<open>Properties of maps in insertion order\<close>

lemma Set_values_set: "set (Set_values seen xs) = set xs - set seen"
  by (induction xs arbitrary: seen) auto

lemma Set_values_distinct: "distinct (Set_values seen xs)"
  by (induction xs arbitrary: seen) (auto simp: Set_values_set)

lemma Set_values_snoc:
  "Set_values seen (xs @ [x])
     = Set_values seen xs @ (if x \<in> set seen \<or> x \<in> set xs then [] else [x])"
  by (induction xs arbitrary: seen) auto

lemma map_of_tabulate: "map_of (tabulate F ks) k = (if k \<in> set ks then Some (F k) else None)"
  by (induction ks) (auto simp: tabulate_def)

lemma Map_keys_tabulate: "Map_keys (tabulate F ks) = ks"
  by (simp add: Map_keys_def tabulate_def comp_def)

lemma tabulate_cong: "(\<And>k. k \<in> set ks \<Longrightarrow> F k = G k) \<Longrightarrow> tabulate F ks = tabulate G ks"
  by (simp add: tabulate_def)

lemma Map_set_absent: "k \<notin> set ks \<Longrightarrow> Map_set (tabulate F ks) k v = tabulate F ks @ [(k, v)]"
  by (induction ks) (auto simp: tabulate_def)

lemma Map_set_present:
  "distinct ks \<Longrightarrow> k \<in> set ks \<Longrightarrow> Map_set (tabulate F ks) k v = tabulate (F(k := v)) ks"
proof (induction ks)
  case Nil
  then show ?case by simp
next
  case (Cons a ks)
  show ?case
  proof (cases "a = k")
    case True
    with Cons.prems have "k \<notin> set ks" by simp
    then have "tabulate (F(k := v)) ks = tabulate F ks"
      by (intro tabulate_cong) auto
    with True show ?thesis by (simp add: tabulate_def)
  next
    case False
    with Cons.prems have "distinct ks" and "k \<in> set ks" by simp_all
    from Cons.IH[OF this] False show ?thesis by (simp add: tabulate_def)
  qed
qed

lemma Map_set_tabulate:
  assumes "distinct ks"
  shows "Map_set (tabulate F ks) k v
           = tabulate (F(k := v)) (ks @ (if k \<in> set ks then [] else [k]))"
proof (cases "k \<in> set ks")
  case True
  with assms show ?thesis by (simp add: Map_set_present)
next
  case False
  then have "tabulate (F(k := v)) ks = tabulate F ks"
    by (intro tabulate_cong) auto
  with False show ?thesis by (simp add: Map_set_absent) (simp add: tabulate_def)
qed

lemma Map_set_twice: "Map_set (Map_set m k v) k w = Map_set m k w"
  by (induction m) auto

lemma map_of_Map_set: "map_of (Map_set m k v) k = Some v"
  by (induction m) auto

section \<open>Properties of the grouping\<close>

lemma add_failure_step:
  "add_failure results grouped fl =
     (let repoMap = (case map_of grouped (name (check fl)) of None \<Rightarrow> [] | Some m \<Rightarrow> m);
          failures = (case map_of repoMap (repository fl) of None \<Rightarrow> [] | Some es \<Rightarrow> es)
      in Map_set grouped (name (check fl))
           (Map_set repoMap (repository fl) (failures @ [entry_of results fl])))"
proof -
  let ?c = "name (check fl)" and ?rp = "repository fl"
  show ?thesis
  proof (cases "map_of grouped ?c")
    case None
    then show ?thesis
      by (simp add: add_failure_def Let_def Map_has_def Map_get_def entry_of_def
            map_of_Map_set Map_set_twice)
  next
    case (Some m)
    show ?thesis
    proof (cases "map_of m ?rp")
      case None
      with Some show ?thesis
        by (simp add: add_failure_def Let_def Map_has_def Map_get_def entry_of_def
              map_of_Map_set Map_set_twice)
    next
      case (Some es)
      with \<open>map_of grouped ?c = Some m\<close> show ?thesis
        by (simp add: add_failure_def Let_def Map_has_def Map_get_def entry_of_def)
    qed
  qed
qed

lemma entries_of_absent:
  "rp \<notin> repository ` set (filter (\<lambda>r. name (check r) = c) fs) \<Longrightarrow> entries_of results fs c rp = []"
  by (auto simp: entries_of_def filter_empty_conv)

lemma repo_groups_absent:
  "c \<notin> (\<lambda>r. name (check r)) ` set fs \<Longrightarrow> repo_groups results fs c = []"
proof -
  assume "c \<notin> (\<lambda>r. name (check r)) ` set fs"
  then have "filter (\<lambda>r. name (check r) = c) fs = []"
    by (auto simp: filter_empty_conv)
  then show ?thesis by (simp add: repo_groups_def tabulate_def)
qed

lemma lookup_check_groups:
  "(case map_of (check_groups results fs) c of None \<Rightarrow> [] | Some m \<Rightarrow> m) = repo_groups results fs c"
  by (simp add: check_groups_def map_of_tabulate Set_values_set repo_groups_absent)

lemma lookup_repo_groups:
  "(case map_of (repo_groups results fs c) rp of None \<Rightarrow> [] | Some es \<Rightarrow> es)
     = entries_of results fs c rp"
  by (simp add: repo_groups_def map_of_tabulate Set_values_set entries_of_absent)

lemma repo_groups_snoc_same:
  assumes "name (check fl) = c"
  shows "repo_groups results (fs @ [fl]) c
           = Map_set (repo_groups results fs c) (repository fl)
               (entries_of results fs c (repository fl) @ [entry_of results fl])"
proof -
  let ?rp = "repository fl"
  let ?repos = "map repository (filter (\<lambda>r. name (check r) = c) fs)"
  have e: "entries_of results (fs @ [fl]) c
             = (entries_of results fs c)(?rp := entries_of results fs c ?rp @ [entry_of results fl])"
    using assms by (intro ext) (simp add: entries_of_def)
  have k: "Set_values [] (map repository (filter (\<lambda>r. name (check r) = c) (fs @ [fl])))
             = Set_values [] ?repos
                 @ (if ?rp \<in> set (Set_values [] ?repos) then [] else [?rp])"
    using assms by (simp add: Set_values_snoc Set_values_set)
  show ?thesis
    unfolding repo_groups_def e k
    by (rule Map_set_tabulate[symmetric]) (rule Set_values_distinct)
qed

lemma repo_groups_snoc_other:
  assumes "name (check fl) \<noteq> c"
  shows "repo_groups results (fs @ [fl]) c = repo_groups results fs c"
proof -
  from assms have "entries_of results (fs @ [fl]) c = entries_of results fs c"
    by (intro ext) (simp add: entries_of_def)
  with assms show ?thesis by (simp add: repo_groups_def)
qed

lemma check_groups_snoc:
  "check_groups results (fs @ [fl]) = add_failure results (check_groups results fs) fl"
proof -
  let ?c = "name (check fl)"
  let ?names = "map (\<lambda>r. name (check r)) fs"
  let ?X = "repo_groups results (fs @ [fl]) ?c"
  have f: "repo_groups results (fs @ [fl]) = (repo_groups results fs)(?c := ?X)"
    by (intro ext) (simp add: repo_groups_snoc_other)
  have k: "Set_values [] (map (\<lambda>r. name (check r)) (fs @ [fl]))
             = Set_values [] ?names @ (if ?c \<in> set (Set_values [] ?names) then [] else [?c])"
    by (simp add: Set_values_snoc Set_values_set)
  let ?keys = "Set_values [] ?names @ (if ?c \<in> set (Set_values [] ?names) then [] else [?c])"
  have "check_groups results (fs @ [fl]) = tabulate (repo_groups results (fs @ [fl])) ?keys"
    by (simp only: check_groups_def k)
  also have "\<dots> = tabulate ((repo_groups results fs)(?c := ?X)) ?keys"
    by (rule arg_cong[where f = "\<lambda>F. tabulate F ?keys"]) (rule f)
  also have "\<dots> = Map_set (tabulate (repo_groups results fs) (Set_values [] ?names)) ?c ?X"
    by (rule Map_set_tabulate[symmetric]) (rule Set_values_distinct)
  also have "\<dots> = Map_set (check_groups results fs) ?c ?X"
    by (simp only: check_groups_def)
  also have "\<dots> = add_failure results (check_groups results fs) fl"
    by (simp add: add_failure_step Let_def lookup_check_groups lookup_repo_groups
          repo_groups_snoc_same)
  finally show ?thesis .
qed

lemma foldl_add_failure: "foldl (add_failure results) [] fs = check_groups results fs"
proof (induction fs rule: rev_induct)
  case Nil
  show ?case by (simp add: check_groups_def tabulate_def)
next
  case (snoc fl fs)
  then show ?case by (simp add: check_groups_snoc)
qed

lemma processResults_groups:
  "byCheck (processResults results) = check_groups results (failed_results results)"
  "failedCount (processResults results) = length (failed_results results)"
  "passedCount (processResults results) = length (filter (\<lambda>r. passed r) results)"
  by (simp_all add: processResults_def Let_def foldl_add_failure failed_results_def)


section \<open>Properties of the report, and the claim about its order\<close>

lemma sort_Set_values: "sort (Set_values [] xs) = sort (remdups xs)"
proof (rule sorted_distinct_set_unique)
  show "sorted (sort (Set_values [] xs))" and "sorted (sort (remdups xs))"
    by simp_all
  show "distinct (sort (Set_values [] xs))" by (simp add: Set_values_distinct)
  show "distinct (sort (remdups xs))" by simp
  show "set (sort (Set_values [] xs)) = set (sort (remdups xs))"
    by (simp add: Set_values_set)
qed

lemma entries_of_filter:
  "entries_of results fs c rp
     = map (entry_of results)
         (filter (\<lambda>r. repository r = rp) (filter (\<lambda>r. name (check r) = c) fs))"
  by (simp add: entries_of_def conj_commute)

lemma referenceExample_of_repo_groups:
  "referenceExample_of (repo_groups results fs c)
     = (case filter (\<lambda>r. name (check r) = c) fs of
          [] \<Rightarrow> None
        | first # _ \<Rightarrow> reference_example (check first))"
proof (cases "filter (\<lambda>r. name (check r) = c) fs")
  case Nil
  then show ?thesis
    by (simp add: referenceExample_of_def repo_groups_def tabulate_def Map_keys_def)
next
  case (Cons f0 others)
  have k: "Map_keys (repo_groups results fs c)
             = repository f0 # Set_values [repository f0] (map repository others)"
    by (simp add: repo_groups_def Map_keys_tabulate Cons)
  have "entries_of results fs c (repository f0)
          = entry_of results f0
              # map (entry_of results) (filter (\<lambda>r. repository r = repository f0) others)"
    by (simp add: entries_of_filter Cons)
  moreover have "Map_get (repo_groups results fs c) (repository f0)
          = Some (entries_of results fs c (repository f0))"
    using k by (simp add: Map_get_def repo_groups_def map_of_tabulate Map_keys_tabulate)
  ultimately show ?thesis
    using k Cons by (simp add: referenceExample_of_def entry_of_def)
qed

lemma table_rows_repo_groups:
  "table_rows (repo_groups results fs c) referenceExample rp
     = map (\<lambda>fl. TableRow rp (filePath fl) (getFailureStatus fl) (getFailedRequires fl results)
                    referenceExample)
         (filter (\<lambda>r. repository r = rp) (filter (\<lambda>r. name (check r) = c) fs))"
  by (simp add: table_rows_def Map_get_def lookup_repo_groups entries_of_filter entry_of_def
        comp_def)

lemma check_section_groups:
  "check_section (check_groups results (failed_results results)) c = section_in_words results c"
proof -
  let ?fs = "failed_results results"
  have g: "(case Map_get (check_groups results ?fs) c of None \<Rightarrow> [] | Some m \<Rightarrow> m)
             = repo_groups results ?fs c"
    by (simp add: Map_get_def lookup_check_groups)
  have k: "sort (Map_keys (repo_groups results ?fs c))
             = sort (remdups (map repository (filter (\<lambda>r. name (check r) = c) ?fs)))"
    by (simp add: repo_groups_def Map_keys_tabulate sort_Set_values)
  have t: "table_rows (repo_groups results ?fs c) ref
             = (\<lambda>rp. map (\<lambda>fl. TableRow rp (filePath fl) (getFailureStatus fl)
                                   (getFailedRequires fl results) ref)
                         (filter (\<lambda>r. repository r = rp)
                            (filter (\<lambda>r. name (check r) = c) ?fs)))" for ref
    by (intro ext) (rule table_rows_repo_groups)
  show ?thesis
    by (simp only: check_section_def section_in_words_def Let_def g k t
          referenceExample_of_repo_groups)
qed

lemma generateMarkdownReport_in_words:
  "generateMarkdownReport P results = report_in_words (now P) results"
proof -
  have s: "check_section (check_groups results (failed_results results)) = section_in_words results"
    by (intro ext) (rule check_section_groups)
  have k: "sort (Map_keys (check_groups results (failed_results results)))
             = sort (remdups (map (\<lambda>r. name (check r)) (failed_results results)))"
    by (simp add: check_groups_def Map_keys_tabulate sort_Set_values)
  show ?thesis
    by (simp add: generateMarkdownReport_def report_in_words_def Let_def processResults_groups
          s k)
qed

lemma check_headings_append:
  "check_headings (xs @ ys) = check_headings xs @ check_headings ys"
  by (induction xs rule: check_headings.induct) simp_all

lemma check_headings_rows:
  "check_headings (map (\<lambda>fl. TableRow (a fl) (b fl) (c fl) (d fl) (e fl)) xs) = []"
  by (induction xs) simp_all

lemma check_headings_concat_rows:
  "check_headings (concat (map (\<lambda>rp. map (\<lambda>fl. TableRow rp (b fl) (c fl) (d fl) e) (xs rp)) rps))
     = []"
  by (induction rps) (simp_all add: check_headings_append check_headings_rows)

lemma check_headings_section: "check_headings (section_in_words results c) = [c]"
  by (simp add: section_in_words_def Let_def check_headings_append check_headings_concat_rows)

lemma check_headings_sections:
  "check_headings (concat (map (section_in_words results) cs)) = cs"
  by (induction cs) (simp_all add: check_headings_append check_headings_section)

lemma check_headings_report:
  "check_headings (report_in_words generated results)
     = sort (remdups (map (\<lambda>r. name (check r)) (failed_results results)))"
  by (simp add: report_in_words_def check_headings_sections)

lemma grouped_failures:
  "map failure
     (case Map_get (case Map_get (byCheck (processResults results)) c of
                      None \<Rightarrow> [] | Some m \<Rightarrow> m) rp of
        None \<Rightarrow> [] | Some es \<Rightarrow> es)
     = filter (\<lambda>r. name (check r) = c \<and> repository r = rp) (failed_results results)"
  by (simp add: processResults_groups Map_get_def lookup_check_groups lookup_repo_groups
        entries_of_def entry_of_def comp_def)

text \<open>
  Claim C7: the report names the failed checks in sorted order, below each check its
  repositories in sorted order, and below each repository its failures in the order of
  the Results; the report is a function of the Results and of the date line alone.
\<close>

theorem report_is_sorted_and_stable:
  "generateMarkdownReport P results = report_in_words (now P) results
 \<and> check_headings (generateMarkdownReport P results)
     = sort (remdups (map (\<lambda>r. name (check r)) (failed_results results)))
 \<and> sorted (check_headings (generateMarkdownReport P results))
 \<and> distinct (check_headings (generateMarkdownReport P results))
 \<and> sort (Map_keys (byCheck (processResults results)))
     = sort (remdups (map (\<lambda>r. name (check r)) (failed_results results)))
 \<and> sort (Map_keys (case Map_get (byCheck (processResults results)) c of
                      None \<Rightarrow> [] | Some m \<Rightarrow> m))
     = sort (remdups (map repository
                        (filter (\<lambda>r. name (check r) = c) (failed_results results))))
 \<and> map failure
      (case Map_get (case Map_get (byCheck (processResults results)) c of
                       None \<Rightarrow> [] | Some m \<Rightarrow> m) rp of
         None \<Rightarrow> [] | Some es \<Rightarrow> es)
     = filter (\<lambda>r. name (check r) = c \<and> repository r = rp) (failed_results results)
 \<and> (now P = now P' \<longrightarrow> generateMarkdownReport P results = generateMarkdownReport P' results)"
proof (intro conjI impI)
  show "generateMarkdownReport P results = report_in_words (now P) results"
    by (rule generateMarkdownReport_in_words)
  show h: "check_headings (generateMarkdownReport P results)
     = sort (remdups (map (\<lambda>r. name (check r)) (failed_results results)))"
    by (simp only: generateMarkdownReport_in_words check_headings_report)
  show "sorted (check_headings (generateMarkdownReport P results))"
    by (simp only: h sorted_sort)
  show "distinct (check_headings (generateMarkdownReport P results))"
    by (simp only: h distinct_sort distinct_remdups)
  show "sort (Map_keys (byCheck (processResults results)))
     = sort (remdups (map (\<lambda>r. name (check r)) (failed_results results)))"
    by (simp add: processResults_groups check_groups_def Map_keys_tabulate sort_Set_values)
  show "sort (Map_keys (case Map_get (byCheck (processResults results)) c of
                      None \<Rightarrow> [] | Some m \<Rightarrow> m))
     = sort (remdups (map repository
                        (filter (\<lambda>r. name (check r) = c) (failed_results results))))"
    by (simp add: processResults_groups Map_get_def lookup_check_groups repo_groups_def
          Map_keys_tabulate sort_Set_values)
  show "map failure
      (case Map_get (case Map_get (byCheck (processResults results)) c of
                       None \<Rightarrow> [] | Some m \<Rightarrow> m) rp of
         None \<Rightarrow> [] | Some es \<Rightarrow> es)
     = filter (\<lambda>r. name (check r) = c \<and> repository r = rp) (failed_results results)"
    by (rule grouped_failures)
next
  assume "now P = now P'"
  then show "generateMarkdownReport P results = generateMarkdownReport P' results"
    by (simp only: generateMarkdownReport_in_words)
qed



theorem report_is_sorted_and_stable_witness:
  "map (\<lambda>r. (repository r, name (check r), passed r)) two_repository_results
     = [(''acme/widgets'', ''no-todo'', False), (''acme/widgets'', ''has-license'', True),
        (''acme/gadgets'', ''no-todo'', False), (''acme/gadgets'', ''has-license'', False)]
 \<and> check_headings (generateMarkdownReport (widgets_world []) two_repository_results)
     = [''has-license'', ''no-todo'']
 \<and> sort (Map_keys (case Map_get (byCheck (processResults two_repository_results)) ''no-todo'' of
                      None \<Rightarrow> [] | Some m \<Rightarrow> m))
     = [''acme/gadgets'', ''acme/widgets'']
 \<and> now (widgets_world []) = now discovering_world
 \<and> generateMarkdownReport (widgets_world []) two_repository_results
     = generateMarkdownReport discovering_world two_repository_results"
proof -
  let ?W = "widgets_world []"
  note t = report_is_sorted_and_stable[of ?W two_repository_results "''no-todo''"
             "''acme/gadgets''" discovering_world]
  have a: "map (\<lambda>r. (repository r, name (check r), passed r)) two_repository_results
     = [(''acme/widgets'', ''no-todo'', False), (''acme/widgets'', ''has-license'', True),
        (''acme/gadgets'', ''no-todo'', False), (''acme/gadgets'', ''has-license'', False)]"
    by code_simp
  have n: "sort (remdups (map (\<lambda>r. name (check r)) (failed_results two_repository_results)))
             = [''has-license'', ''no-todo'']"
    by code_simp
  have r: "sort (remdups (map repository
                        (filter (\<lambda>r. name (check r) = ''no-todo'')
                           (failed_results two_repository_results))))
             = [''acme/gadgets'', ''acme/widgets'']"
    by code_simp
  from t have "check_headings (generateMarkdownReport ?W two_repository_results)
     = sort (remdups (map (\<lambda>r. name (check r)) (failed_results two_repository_results)))"
    by (elim conjE)
  with n have b: "check_headings (generateMarkdownReport ?W two_repository_results)
     = [''has-license'', ''no-todo'']"
    by (simp only:)
  from t have "sort (Map_keys (case Map_get (byCheck (processResults two_repository_results))
                                      ''no-todo'' of None \<Rightarrow> [] | Some m \<Rightarrow> m))
     = sort (remdups (map repository
                        (filter (\<lambda>r. name (check r) = ''no-todo'')
                           (failed_results two_repository_results))))"
    by (elim conjE)
  with r have c: "sort (Map_keys (case Map_get (byCheck (processResults two_repository_results))
                                      ''no-todo'' of None \<Rightarrow> [] | Some m \<Rightarrow> m))
     = [''acme/gadgets'', ''acme/widgets'']"
    by (simp only:)
  have d: "now ?W = now discovering_world"
    by (simp add: widgets_world_def discovering_world_def sample_platform_def)
  from t have "now ?W = now discovering_world \<longrightarrow>
      generateMarkdownReport ?W two_repository_results
        = generateMarkdownReport discovering_world two_repository_results"
    by (elim conjE)
  from this d have e: "generateMarkdownReport ?W two_repository_results
        = generateMarkdownReport discovering_world two_repository_results"
    by (rule mp)
  from a b c d e show ?thesis by (intro conjI)
qed

end
